theory Spec2Isabelle
  imports Main
begin

section \<open>The generate action of genkit (py/packages/genkit, blocks/generate.py)\<close>

text \<open>
  A shallow embedding of \<^verbatim>\<open>generate.py\<close>: the recursive \<^verbatim>\<open>generate_action\<close> with its
  closures \<^verbatim>\<open>make_chunk\<close>, \<^verbatim>\<open>wrap_chunks\<close> and \<^verbatim>\<open>dispatch\<close>, and the helpers
  \<^verbatim>\<open>apply_format\<close>, \<^verbatim>\<open>resolve_instructions\<close>, \<^verbatim>\<open>resolve_parameters\<close>,
  \<^verbatim>\<open>action_to_generate_request\<close>, \<^verbatim>\<open>to_tool_definition\<close> and \<^verbatim>\<open>resolve_tool_requests\<close>.

  Exceptions are values of the type \<open>exn\<close>, a call that may raise returns \<open>exn + 'a\<close>.
  Everything the code mutates or calls out to is explicit: the variables shared by the
  closures, the list object the caller passes as \<^verbatim>\<open>middleware\<close>, and a chronological log of
  the calls made to the collaborators (model, tools, streaming callback).
\<close>

subsection \<open>Data model (genkit.core.typing)\<close>

datatype Role = USER | MODEL | TOOL | SYSTEM

text \<open>JSON payloads, schemas and documents are opaque to the orchestrator: serialised text.\<close>

type_synonym payload = string
type_synonym json_schema = string
type_synonym Document = string
type_synonym config_map = "(string \<times> string) list"
type_synonym context_map = "(string \<times> string) list"

record ToolRequest =
  tq_name :: string
  tq_ref :: "string option"
  tq_input :: payload

record ToolResponse =
  tp_name :: string
  tp_ref :: "string option"
  tp_output :: payload

text \<open>A part is a tagged union; \<^verbatim>\<open>x.root.tool_request\<close> is set for a tool-request part only.\<close>

datatype Part =
    TextPart string
  | MediaPart string
  | ToolRequestPart ToolRequest
  | ToolResponsePart ToolResponse
  | CustomPart payload

fun tool_request :: "Part \<Rightarrow> ToolRequest option" where
  "tool_request (ToolRequestPart r) = Some r"
| "tool_request _ = None"

record Message =
  msg_role :: Role
  msg_content :: "Part list"

record GenerateResponseChunk =
  gc_role :: "Role option"
  gc_content :: "Part list"

text \<open>\<^verbatim>\<open>output.instructions\<close> is \<^verbatim>\<open>bool | str | None\<close>.\<close>

datatype instructions_opt = InstrBool bool | InstrStr string

record GenerateActionOutputConfig =
  out_format :: "string option"
  out_content_type :: "string option"
  out_instructions :: "instructions_opt option"
  out_json_schema :: "json_schema option"
  out_constrained :: "bool option"

record GenerateActionOptions =
  opt_model :: "string option"
  opt_docs :: "Document list option"
  opt_messages :: "Message list"
  opt_tools :: "string list option"
  opt_tool_choice :: "string option"
  opt_config :: "config_map option"
  opt_output :: "GenerateActionOutputConfig option"
  opt_return_tool_requests :: "bool option"
  opt_max_turns :: "int option"

record ToolDefinition =
  td_name :: string
  td_description :: "string option"
  td_input_schema :: "json_schema option"
  td_output_schema :: "json_schema option"
  td_metadata :: "(string \<times> string) list option"

record OutputConfig =
  oc_content_type :: "string option"
  oc_format :: "string option"
  oc_schema :: "json_schema option"
  oc_constrained :: "bool option"

record GenerateRequest =
  req_messages :: "Message list"
  req_config :: config_map
  req_docs :: "Document list option"
  req_tools :: "ToolDefinition list"
  req_tool_choice :: "string option"
  req_output :: OutputConfig

record GenerateResponse =
  resp_message :: Message
  resp_finish_reason :: "string option"
  resp_finish_message :: "string option"

text \<open>
  \<^verbatim>\<open>GenerateResponseWrapper(response, request, message_parser)\<close> and
  \<^verbatim>\<open>GenerateResponseChunkWrapper(chunk, index, previous_chunks, chunk_parser)\<close>
  (genkit.blocks.model): the values built from the constructor arguments.
\<close>

record GenerateResponseWrapper =
  rw_message :: Message
  rw_finish_reason :: "string option"
  rw_finish_message :: "string option"
  rw_request :: GenerateRequest
  rw_message_parser :: "(Message \<Rightarrow> payload) option"

record GenerateResponseChunkWrapper =
  cw_chunk :: GenerateResponseChunk
  cw_index :: int
  cw_previous_chunks :: "GenerateResponseChunk list"
  cw_chunk_parser :: "(GenerateResponseChunk \<Rightarrow> payload) option"

subsection \<open>Exceptions\<close>

text \<open>
  The exceptions the file raises itself, the ones Python raises for it
  (\<^verbatim>\<open>TypeError\<close> on iterating \<^verbatim>\<open>None\<close>, \<^verbatim>\<open>AttributeError\<close> on an attribute of \<^verbatim>\<open>None\<close>,
  \<^verbatim>\<open>IndexError\<close>), and \<open>Raised\<close> for whatever a collaborator raises.
  \<open>GenerationResponseError\<close> carries response, message, status and \<^verbatim>\<open>details['request']\<close>.
\<close>

datatype exn =
    Exception string
  | ValueError string
  | RuntimeError string
  | TypeError string
  | AttributeError string
  | IndexError string
  | GenerationResponseError GenerateResponseWrapper string string GenerateRequest
  | Raised string

subsection \<open>Middleware and run context\<close>

text \<open>
  \<^verbatim>\<open>ActionRunContext(on_chunk, context)\<close>: the orchestrator only ever installs its own
  \<^verbatim>\<open>wrap_chunks\<close> as the chunk sink; a middleware may pass a context with a sink of its own
  (\<open>Foreign\<close>), whose chunks do not reach \<^verbatim>\<open>wrap_chunks\<close>. \<^verbatim>\<open>is_streaming\<close> holds when a
  sink is set.
\<close>

datatype chunk_sink = WrapChunks | Foreign

record ActionRunContext =
  ctx_on_chunk :: "chunk_sink option"
  ctx_context :: "context_map option"

definition is_streaming :: "ActionRunContext \<Rightarrow> bool" where
  "is_streaming ctx = (ctx_on_chunk ctx \<noteq> None)"

text \<open>
  Modelled from the spec: \<^verbatim>\<open>ModelMiddleware\<close> is declared in genkit.blocks.model and the
  middleware themselves are supplied by the caller. A middleware receives the request, the
  run context and the continuation \<^verbatim>\<open>next\<close>, and either answers by itself (returns or
  raises without calling \<^verbatim>\<open>next\<close>) or calls \<^verbatim>\<open>next\<close> once, with an optionally modified
  request and context, and returns a function of what \<^verbatim>\<open>next\<close> gave back.
\<close>

datatype mw_step =
    Respond "exn + GenerateResponse"
  | CallNext "GenerateRequest option" "ActionRunContext option"
      "exn + GenerateResponse \<Rightarrow> exn + GenerateResponse"

type_synonym ModelMiddleware = "GenerateRequest \<Rightarrow> ActionRunContext \<Rightarrow> mw_step"

subsection \<open>The log of calls, and the mutable state\<close>

text \<open>
  One entry per call that leaves the orchestrator, in the order the calls happen:
  \<open>Dispatched\<close> when \<^verbatim>\<open>dispatch(0, request, ActionRunContext(...))\<close> is entered (with the
  middleware chain and the context it runs with), \<open>ModelCall\<close> for \<^verbatim>\<open>model.arun\<close>,
  \<open>OnChunk\<close> for a call of the caller's \<^verbatim>\<open>on_chunk\<close> (with the role \<^verbatim>\<open>make_chunk\<close> was given),
  \<open>ToolRun\<close> for \<^verbatim>\<open>tool.arun_raw\<close>.
\<close>

datatype event =
    Dispatched "ModelMiddleware list" "context_map option"
  | ModelCall GenerateRequest "context_map option" bool
  | OnChunk Role GenerateResponseChunkWrapper
  | ToolRun ToolRequest

text \<open>
  \<open>message_index\<close>, \<open>chunk_role\<close> and \<open>prev_chunks\<close> are the variables of the running
  \<^verbatim>\<open>generate_action\<close> call that \<^verbatim>\<open>make_chunk\<close> updates. \<open>heap\<close> holds the middleware list
  objects by address, \<open>next_addr\<close> is the first address not yet allocated.
\<close>

record state =
  message_index :: int
  chunk_role :: Role
  prev_chunks :: "GenerateResponseChunk list"
  trace :: "event list"
  heap :: "nat \<Rightarrow> ModelMiddleware list"
  next_addr :: nat

definition log :: "event \<Rightarrow> state \<Rightarrow> state" where
  "log e s = s\<lparr>trace := trace s @ [e]\<rparr>"

subsection \<open>Collaborators: actions, formats, registry\<close>

text \<open>
  An action has a name, schemas and metadata, and runs: \<^verbatim>\<open>arun\<close> for a model (it streams
  chunks to \<^verbatim>\<open>on_chunk\<close> when given one, then returns a response or raises),
  \<^verbatim>\<open>arun_raw\<close> for a tool. A collaborator may keep state of its own, so what it returns
  may depend on the log so far.
  \<^verbatim>\<open>metadata['model']['supports']['context']\<close> is kept as it is read: each of
  \<^verbatim>\<open>metadata\<close>, \<^verbatim>\<open>model\<close>, \<^verbatim>\<open>supports\<close> and \<^verbatim>\<open>context\<close> may be missing.
\<close>

record Action =
  act_name :: string
  act_description :: "string option"
  act_input_schema :: "json_schema option"
  act_output_schema :: "json_schema option"
  act_metadata :: "bool option option option option"
  act_arun :: "event list \<Rightarrow> GenerateRequest \<Rightarrow> context_map option \<Rightarrow> bool
                 \<Rightarrow> GenerateResponseChunk list \<times> (exn + GenerateResponse)"
  act_arun_raw :: "event list \<Rightarrow> payload \<Rightarrow> exn + payload"

record Formatter =
  fmt_instructions :: "string option"
  fmt_parse_message :: "Message \<Rightarrow> payload"
  fmt_parse_chunk :: "GenerateResponseChunk \<Rightarrow> payload"

record FormatConfig =
  fc_default_instructions :: "bool option"
  fc_constrained :: "bool option"
  fc_content_type :: "string option"
  fc_format :: "string option"

record FormatDef =
  fd_config :: FormatConfig
  fd_make :: "json_schema option \<Rightarrow> Formatter"

datatype ActionKind = KModel | KTool

record Registry =
  default_model :: "string option"
  lookup_action :: "ActionKind \<Rightarrow> string \<Rightarrow> Action option"
  lookup_value :: "string \<Rightarrow> string \<Rightarrow> FormatDef option"

text \<open>
  Functions of other modules of the package that generate.py calls:
  \<^verbatim>\<open>inject_instructions\<close> (genkit.blocks.messages), \<^verbatim>\<open>augment_with_context\<close>
  (genkit.blocks.middleware), \<^verbatim>\<open>dump_dict\<close> (genkit.codec), and the wrapper's
  \<^verbatim>\<open>assert_valid\<close> and \<^verbatim>\<open>assert_valid_schema\<close> (genkit.blocks.model), which return
  normally (\<open>None\<close>) or raise.
\<close>

record env =
  inject_instructions :: "Message list \<Rightarrow> string option \<Rightarrow> Message list"
  augment_with_context :: ModelMiddleware
  dump_dict :: "payload \<Rightarrow> payload"
  assert_valid :: "GenerateResponseWrapper \<Rightarrow> exn option"
  assert_valid_schema :: "GenerateResponseWrapper \<Rightarrow> exn option"

subsection \<open>to_tool_definition\<close>

text \<open>\<^verbatim>\<open>s.rfind(c)\<close>: the highest index of \<open>c\<close> in \<open>s\<close>, or \<open>-1\<close>.\<close>

fun rfind :: "string \<Rightarrow> char \<Rightarrow> int" where
  "rfind [] c = - 1"
| "rfind (x # xs) c =
     (let r = rfind xs c in if 0 \<le> r then r + 1 else if x = c then 0 else - 1)"

definition to_tool_definition :: "Action \<Rightarrow> ToolDefinition" where
  "to_tool_definition tool =
     (let original_name = act_name tool;
          name = (if CHR ''/'' \<in> set original_name
                  then drop (nat (rfind original_name CHR ''/'' + 1)) original_name
                  else original_name);
          metadata = (if original_name \<noteq> name
                      then Some [(''originalName'', original_name)] else None)
      in \<lparr>td_name = name, td_description = act_description tool,
          td_input_schema = act_input_schema tool,
          td_output_schema = act_output_schema tool,
          td_metadata = metadata\<rparr>)"

subsection \<open>resolve_tool_requests\<close>

definition resolve_tool :: "Registry \<Rightarrow> string \<Rightarrow> Action option" where
  "resolve_tool registry tool_name = lookup_action registry KTool tool_name"

text \<open>The loop filling \<^verbatim>\<open>tool_dict\<close>; a name maps to whatever the registry returns, also \<^verbatim>\<open>None\<close>.\<close>

definition build_tool_dict :: "Registry \<Rightarrow> string list \<Rightarrow> (string \<rightharpoonup> Action option)" where
  "build_tool_dict registry names =
     foldl (\<lambda>tool_dict tool_name. tool_dict(tool_name \<mapsto> resolve_tool registry tool_name))
       Map.empty names"

text \<open>
  The loop over the tool requests, in message order. It stops at the first request that
  raises: a name that is not a key of \<^verbatim>\<open>tool_dict\<close>, a key bound to \<^verbatim>\<open>None\<close>, or a tool
  that raises.
\<close>

fun run_tool_requests :: "env \<Rightarrow> (string \<rightharpoonup> Action option) \<Rightarrow> ToolRequest list
    \<Rightarrow> Part list \<Rightarrow> state \<Rightarrow> (exn + Part list) \<times> state" where
  "run_tool_requests E tool_dict [] response_parts s = (Inr response_parts, s)"
| "run_tool_requests E tool_dict (tr # rest) response_parts s =
     (case tool_dict (tq_name tr) of
        None \<Rightarrow> (Inl (RuntimeError (''failed '' @ tq_name tr @ '' not found'')), s)
      | Some None \<Rightarrow>
          (Inl (AttributeError ''NoneType object has no attribute arun_raw''), s)
      | Some (Some tool) \<Rightarrow>
          (case act_arun_raw tool (trace s) (tq_input tr) of
             Inl e \<Rightarrow> (Inl e, log (ToolRun tr) s)
           | Inr tool_response \<Rightarrow>
               run_tool_requests E tool_dict rest
                 (response_parts @
                    [ToolResponsePart \<lparr>tp_name = tq_name tr, tp_ref = tq_ref tr,
                                       tp_output = dump_dict E tool_response\<rparr>])
                 (log (ToolRun tr) s)))"

text \<open>
  Returns the revised model message (always \<^verbatim>\<open>None\<close>: interrupts are a TODO), the tool
  message and the transfer preamble (always \<^verbatim>\<open>None\<close>).
\<close>

definition resolve_tool_requests :: "env \<Rightarrow> Registry \<Rightarrow> GenerateActionOptions \<Rightarrow> Message
    \<Rightarrow> state \<Rightarrow> (exn + Message option \<times> Message \<times> GenerateActionOptions option) \<times> state" where
  "resolve_tool_requests E registry request message s =
     (let tool_requests = List.map_filter tool_request (msg_content message) in
      case opt_tools request of
        None \<Rightarrow> (Inl (TypeError ''NoneType object is not iterable''), s)
      | Some names \<Rightarrow>
          (case run_tool_requests E (build_tool_dict registry names) tool_requests [] s of
             (Inl e, s') \<Rightarrow> (Inl e, s')
           | (Inr response_parts, s') \<Rightarrow>
               (Inr (None, \<lparr>msg_role = TOOL, msg_content = response_parts\<rparr>, None), s')))"

subsection \<open>resolve_parameters\<close>

text \<open>The loop over \<^verbatim>\<open>request.tools\<close>: the first name the registry does not know raises.\<close>

fun resolve_tools :: "Registry \<Rightarrow> string list \<Rightarrow> Action list \<Rightarrow> exn + Action list" where
  "resolve_tools registry [] tools = Inr tools"
| "resolve_tools registry (tool_name # rest) tools =
     (case lookup_action registry KTool tool_name of
        None \<Rightarrow> Inl (Exception (''Unable to resolve tool '' @ tool_name))
      | Some tool_action \<Rightarrow> resolve_tools registry rest (tools @ [tool_action]))"

definition resolve_parameters :: "Registry \<Rightarrow> GenerateActionOptions
    \<Rightarrow> exn + Action \<times> Action list \<times> FormatDef option" where
  "resolve_parameters registry request =
     (let model = (case opt_model request of Some m \<Rightarrow> Some m | None \<Rightarrow> default_model registry) in
      case model of
        None \<Rightarrow> Inl (Exception ''No model configured.'')
      | Some model_name \<Rightarrow>
          if model_name = [] then Inl (Exception ''No model configured.'')
          else (case lookup_action registry KModel model_name of
             None \<Rightarrow> Inl (Exception (''Failed to to resolve model '' @ model_name))
           | Some model_action \<Rightarrow>
               (case resolve_tools registry
                       (case opt_tools request of Some names \<Rightarrow> names | None \<Rightarrow> []) [] of
                  Inl e \<Rightarrow> Inl e
                | Inr tools \<Rightarrow>
                    (case opt_output request of
                       None \<Rightarrow> Inr (model_action, tools, None)
                     | Some out \<Rightarrow>
                         (case out_format out of
                            None \<Rightarrow> Inr (model_action, tools, None)
                          | Some fmt \<Rightarrow>
                              if fmt = [] then Inr (model_action, tools, None)
                              else (case lookup_value registry ''format'' fmt of
                                 None \<Rightarrow> Inl (ValueError (''Unable to resolve format '' @ fmt))
                               | Some format_def \<Rightarrow>
                                   Inr (model_action, tools, Some format_def)))))))"

subsection \<open>apply_format and resolve_instructions\<close>

fun resolve_instructions :: "Formatter option \<Rightarrow> instructions_opt option \<Rightarrow> string option" where
  "resolve_instructions formatter (Some (InstrStr i)) = Some i"
| "resolve_instructions formatter (Some (InstrBool False)) = None"
| "resolve_instructions None _ = None"
| "resolve_instructions (Some f) _ = fmt_instructions f"

text \<open>Python truthiness of \<^verbatim>\<open>output.instructions\<close>: \<^verbatim>\<open>True\<close> or a non-empty string.\<close>

fun instructions_truthy :: "instructions_opt option \<Rightarrow> bool" where
  "instructions_truthy None = False"
| "instructions_truthy (Some (InstrBool b)) = b"
| "instructions_truthy (Some (InstrStr i)) = (i \<noteq> [])"

text \<open>
  With a format and no \<^verbatim>\<open>output\<close> on the request, \<^verbatim>\<open>raw_request.output.constrained\<close>
  raises. The conditional expression in the test for injecting binds weaker than
  \<^verbatim>\<open>or\<close>: without \<^verbatim>\<open>output\<close> nothing is injected.
\<close>

definition apply_format :: "env \<Rightarrow> GenerateActionOptions \<Rightarrow> FormatDef option
    \<Rightarrow> exn + GenerateActionOptions \<times> Formatter option" where
  "apply_format E raw_request format_def =
     (case format_def of
        None \<Rightarrow> Inr (raw_request, None)
      | Some fd \<Rightarrow>
          (let formatter = fd_make fd
                 (case opt_output raw_request of Some out \<Rightarrow> out_json_schema out | None \<Rightarrow> None);
               instructions = resolve_instructions (Some formatter)
                 (case opt_output raw_request of Some out \<Rightarrow> out_instructions out | None \<Rightarrow> None);
               out_request =
                 (if (case opt_output raw_request of
                        Some out \<Rightarrow> fc_default_instructions (fd_config fd) \<noteq> Some False
                                    \<or> instructions_truthy (out_instructions out)
                      | None \<Rightarrow> False)
                  then raw_request\<lparr>opt_messages :=
                         inject_instructions E (opt_messages raw_request) instructions\<rparr>
                  else raw_request)
           in case opt_output raw_request of
                None \<Rightarrow> Inl (AttributeError ''NoneType object has no attribute constrained'')
              | Some raw_out \<Rightarrow>
                  (let o1 = (case fc_constrained (fd_config fd) of
                               Some c \<Rightarrow> raw_out\<lparr>out_constrained := Some c\<rparr> | None \<Rightarrow> raw_out);
                       o2 = (case out_constrained raw_out of
                               Some c \<Rightarrow> o1\<lparr>out_constrained := Some c\<rparr> | None \<Rightarrow> o1);
                       o3 = (case fc_content_type (fd_config fd) of
                               Some t \<Rightarrow> o2\<lparr>out_content_type := Some t\<rparr> | None \<Rightarrow> o2);
                       o4 = (case fc_format (fd_config fd) of
                               Some f \<Rightarrow> o3\<lparr>out_format := Some f\<rparr> | None \<Rightarrow> o3)
                   in Inr (out_request\<lparr>opt_output := Some o4\<rparr>, Some formatter))))"

definition apply_transfer_preamble :: "GenerateActionOptions \<Rightarrow> GenerateActionOptions option
    \<Rightarrow> GenerateActionOptions" where
  "apply_transfer_preamble next_request preamble = next_request"

subsection \<open>action_to_generate_request\<close>

definition action_to_generate_request :: "GenerateActionOptions \<Rightarrow> Action list \<Rightarrow> Action
    \<Rightarrow> GenerateRequest" where
  "action_to_generate_request options resolved_tools model =
     (let tool_defs = (if resolved_tools \<noteq> [] then map to_tool_definition resolved_tools else [])
      in \<lparr>req_messages = opt_messages options,
          req_config = (case opt_config options of Some c \<Rightarrow> c | None \<Rightarrow> []),
          req_docs = opt_docs options,
          req_tools = tool_defs,
          req_tool_choice = opt_tool_choice options,
          req_output =
            \<lparr>oc_content_type = (case opt_output options of Some out \<Rightarrow> out_content_type out | None \<Rightarrow> None),
             oc_format = (case opt_output options of Some out \<Rightarrow> out_format out | None \<Rightarrow> None),
             oc_schema = (case opt_output options of Some out \<Rightarrow> out_json_schema out | None \<Rightarrow> None),
             oc_constrained = (case opt_output options of Some out \<Rightarrow> out_constrained out | None \<Rightarrow> None)\<rparr>\<rparr>)"

subsection \<open>The closures of generate_action: make_chunk, wrap_chunks, dispatch\<close>

definition make_chunk :: "Formatter option \<Rightarrow> Role \<Rightarrow> GenerateResponseChunk \<Rightarrow> state
    \<Rightarrow> GenerateResponseChunkWrapper \<times> state" where
  "make_chunk formatter role chunk s =
     (let s1 = (if role \<noteq> chunk_role s \<and> length (prev_chunks s) > 0
                then s\<lparr>message_index := message_index s + 1\<rparr> else s);
          s2 = s1\<lparr>chunk_role := role\<rparr>;
          prev_to_send = prev_chunks s2;
          s3 = s2\<lparr>prev_chunks := prev_chunks s2 @ [chunk]\<rparr>
      in (\<lparr>cw_chunk = chunk, cw_index = message_index s3,
           cw_previous_chunks = prev_to_send,
           cw_chunk_parser = (case formatter of Some f \<Rightarrow> Some (fmt_parse_chunk f) | None \<Rightarrow> None)\<rparr>,
          s3))"

text \<open>\<^verbatim>\<open>on_chunk(make_chunk(role, chunk))\<close>: the call of the caller's callback is logged.\<close>

definition send_chunk :: "Formatter option \<Rightarrow> Role \<Rightarrow> GenerateResponseChunk \<Rightarrow> state \<Rightarrow> state" where
  "send_chunk formatter role chunk s =
     (let (wrapped, s') = make_chunk formatter role chunk s in log (OnChunk role wrapped) s')"

text \<open>
  \<^verbatim>\<open>wrap_chunks\<close> closes over \<^verbatim>\<open>on_chunk\<close> (\<open>True\<close> when the caller gave a callback). It
  is put into a run context only when there is a callback, so without one it is never
  called; the model then leaves the state as it is.
\<close>

definition wrap_chunks :: "bool \<Rightarrow> Formatter option \<Rightarrow> GenerateResponseChunk \<Rightarrow> state \<Rightarrow> state" where
  "wrap_chunks on_chunk formatter chunk s =
     (if on_chunk then send_chunk formatter MODEL chunk s else s)"

text \<open>
  The end of the chain: \<^verbatim>\<open>model.arun(input=req, context=ctx.context, on_chunk=...)\<close>. The
  model's chunks go through \<^verbatim>\<open>wrap_chunks\<close> one by one when the context streams to it.
\<close>

definition run_model :: "bool \<Rightarrow> Action \<Rightarrow> Formatter option \<Rightarrow> GenerateRequest
    \<Rightarrow> ActionRunContext \<Rightarrow> state \<Rightarrow> (exn + GenerateResponse) \<times> state" where
  "run_model on_chunk model formatter req ctx s =
     (let (chunks, res) = act_arun model (trace s) req (ctx_context ctx) (is_streaming ctx);
          s1 = log (ModelCall req (ctx_context ctx) (is_streaming ctx)) s;
          s2 = (if ctx_on_chunk ctx = Some WrapChunks
                then foldl (\<lambda>t chunk. wrap_chunks on_chunk formatter chunk t) s1 chunks else s1)
      in (res, s2))"

function dispatch :: "bool \<Rightarrow> Action \<Rightarrow> Formatter option \<Rightarrow> ModelMiddleware list \<Rightarrow> nat
    \<Rightarrow> GenerateRequest \<Rightarrow> ActionRunContext \<Rightarrow> state \<Rightarrow> (exn + GenerateResponse) \<times> state" where
  "dispatch on_chunk model formatter middleware index req ctx s =
     (if middleware = [] \<or> index = length middleware
      then run_model on_chunk model formatter req ctx s
      else if length middleware < index then (Inl (IndexError ''list index out of range''), s)
      else (case (middleware ! index) req ctx of
              Respond r \<Rightarrow> (r, s)
            | CallNext modified_req modified_ctx after \<Rightarrow>
                (let (r, s') = dispatch on_chunk model formatter middleware (index + 1)
                                 (case modified_req of Some q \<Rightarrow> q | None \<Rightarrow> req)
                                 (case modified_ctx of Some c \<Rightarrow> c | None \<Rightarrow> ctx) s
                 in (after r, s'))))"
  by pat_completeness auto
termination
  by (relation "measure (\<lambda>(on_chunk, model, formatter, middleware, index, req, ctx, s).
        length middleware - index)") auto

subsection \<open>generate_action\<close>

definition DEFAULT_MAX_TURNS :: int where
  "DEFAULT_MAX_TURNS = 5"

text \<open>\<^verbatim>\<open>str(n)\<close> for the f-string of the error message.\<close>

function str_nat :: "nat \<Rightarrow> string" where
  "str_nat n = (if n < 10 then [''0123456789'' ! n]
                else str_nat (n div 10) @ [''0123456789'' ! (n mod 10)])"
  by pat_completeness auto
termination
  by (relation "measure id") auto

definition str_int :: "int \<Rightarrow> string" where
  "str_int i = (if i < 0 then ''-'' @ str_nat (nat (- i)) else str_nat (nat i))"

text \<open>\<^verbatim>\<open>raw_request.max_turns if raw_request.max_turns else DEFAULT_MAX_TURNS\<close>: \<^verbatim>\<open>None\<close> and \<open>0\<close> are falsy.\<close>

definition max_iters :: "GenerateActionOptions \<Rightarrow> int" where
  "max_iters raw_request =
     (case opt_max_turns raw_request of
        Some n \<Rightarrow> if n \<noteq> 0 then n else DEFAULT_MAX_TURNS
      | None \<Rightarrow> DEFAULT_MAX_TURNS)"

text \<open>The chain of \<^verbatim>\<open>and\<close> over the model's metadata; only a true \<^verbatim>\<open>context\<close> entry is truthy.\<close>

definition supports_context :: "Action \<Rightarrow> bool" where
  "supports_context model = (act_metadata model = Some (Some (Some (Some True))))"

text \<open>A new empty list object, and \<^verbatim>\<open>list.append\<close> on the object at an address.\<close>

definition new_list :: "state \<Rightarrow> nat \<times> state" where
  "new_list s = (next_addr s, s\<lparr>heap := (heap s)(next_addr s := []), next_addr := next_addr s + 1\<rparr>)"

definition list_append :: "nat \<Rightarrow> ModelMiddleware \<Rightarrow> state \<Rightarrow> state" where
  "list_append a m s = s\<lparr>heap := (heap s)(a := heap s a @ [m])\<rparr>"

definition wrap_response :: "GenerateResponse \<Rightarrow> GenerateRequest \<Rightarrow> Formatter option
    \<Rightarrow> GenerateResponseWrapper" where
  "wrap_response response request formatter =
     \<lparr>rw_message = resp_message response,
      rw_finish_reason = resp_finish_reason response,
      rw_finish_message = resp_finish_message response,
      rw_request = request,
      rw_message_parser = (case formatter of Some f \<Rightarrow> Some (fmt_parse_message f) | None \<Rightarrow> None)\<rparr>"

text \<open>
  One activation of \<^verbatim>\<open>generate_action\<close> up to its last statement returns a response,
  raises, or reaches the recursive call, with the next request and the message index to
  pass on. The body is given in three parts, in the order of the source.
\<close>

datatype turn_outcome =
    Return GenerateResponseWrapper
  | Raise exn
  | Recurse GenerateActionOptions int

text \<open>
  Third part, from \<^verbatim>\<open>response = GenerateResponseWrapper(...)\<close> to the arguments of the
  recursive call. \<open>on_chunk\<close> tells whether the caller gave a callback.
\<close>

definition conclude_turn :: "env \<Rightarrow> Registry \<Rightarrow> GenerateActionOptions \<Rightarrow> GenerateRequest
    \<Rightarrow> Formatter option \<Rightarrow> bool \<Rightarrow> int \<Rightarrow> GenerateResponse \<Rightarrow> state
    \<Rightarrow> turn_outcome \<times> state" where
  "conclude_turn E registry raw_request request formatter on_chunk current_turn model_response s5 =
     (let response = wrap_response model_response request formatter in
      case assert_valid E response of
        Some e \<Rightarrow> (Raise e, s5)
      | None \<Rightarrow>
     (let generated_msg = rw_message response;
          tool_requests = filter (\<lambda>x. tool_request x \<noteq> None) (msg_content (rw_message response))
      in if opt_return_tool_requests raw_request = Some True \<or> length tool_requests = 0
         then (if length tool_requests = 0
               then (case assert_valid_schema E response of
                       Some e \<Rightarrow> (Raise e, s5)
                     | None \<Rightarrow> (Return response, s5))
               else (Return response, s5))
         else if current_turn + 1 > max_iters raw_request
         then (Raise (GenerationResponseError response
                        (''Exceeded maximum tool call iterations ('' @ str_int (max_iters raw_request) @ '')'')
                        ''ABORTED'' request), s5)
         else (case resolve_tool_requests E registry raw_request generated_msg s5 of
                 (Inl e, s6) \<Rightarrow> (Raise e, s6)
               | (Inr (revised_model_msg, tool_msg, transfer_preamble), s6) \<Rightarrow>
                   (case revised_model_msg of
                      Some revised \<Rightarrow>
                        (Return (response\<lparr>rw_finish_reason := Some ''interrupted'',
                                   rw_finish_message := Some ''One or more tool calls resulted in interrupts.'',
                                   rw_message := revised\<rparr>), s6)
                    | None \<Rightarrow>
                        (let s7 = (if on_chunk
                                   then send_chunk formatter TOOL
                                          \<lparr>gc_role = Some (msg_role tool_msg),
                                           gc_content = msg_content tool_msg\<rparr> s6
                                   else s6);
                             next_request = apply_transfer_preamble
                               (raw_request\<lparr>opt_messages :=
                                   opt_messages raw_request @ [generated_msg, tool_msg]\<rparr>)
                               transfer_preamble
                         in (Recurse next_request (message_index s7 + 1), s7))))))"

text \<open>Python truthiness of \<^verbatim>\<open>raw_request.docs\<close>: a non-empty list.\<close>

definition docs_present :: "GenerateActionOptions \<Rightarrow> bool" where
  "docs_present raw_request = (opt_docs raw_request \<noteq> None \<and> opt_docs raw_request \<noteq> Some [])"

text \<open>
  The middleware list the activation works on: the caller's object when it is given and
  not empty, else a new empty list; the context middleware is appended to that object
  when the request has documents and the model does not support context. \<open>middleware0\<close>
  is the address of the caller's list object, if any; the result is the address used.
\<close>

definition effective_middleware :: "env \<Rightarrow> GenerateActionOptions \<Rightarrow> Action \<Rightarrow> nat option
    \<Rightarrow> state \<Rightarrow> nat \<times> state" where
  "effective_middleware E raw_request model middleware0 s1 =
     (let (middleware, s2) =
             (case middleware0 of
                None \<Rightarrow> new_list s1
              | Some a \<Rightarrow> if heap s1 a = [] then new_list s1 else (a, s1));
          s3 = (if docs_present raw_request \<and> \<not> supports_context model
                then list_append middleware (augment_with_context E) s2 else s2)
      in (middleware, s3))"

text \<open>
  Second part, from \<^verbatim>\<open>request = await action_to_generate_request(...)\<close> to the result of
  \<^verbatim>\<open>dispatch(0, request, ActionRunContext(...))\<close>; the variables of the closures start at
  \<^verbatim>\<open>message_index\<close>, \<^verbatim>\<open>Role.MODEL\<close> and \<^verbatim>\<open>[]\<close>.
\<close>

definition dispatch_turn :: "env \<Rightarrow> GenerateActionOptions \<Rightarrow> Action \<Rightarrow> Action list
    \<Rightarrow> Formatter option \<Rightarrow> bool \<Rightarrow> int \<Rightarrow> nat option \<Rightarrow> context_map option \<Rightarrow> state
    \<Rightarrow> (exn + GenerateResponse) \<times> state" where
  "dispatch_turn E raw_request model tools formatter on_chunk message_index0 middleware0 context s0 =
     (let request = action_to_generate_request raw_request tools model;
          s1 = s0\<lparr>message_index := message_index0, chunk_role := MODEL, prev_chunks := []\<rparr>;
          (middleware, s3) = effective_middleware E raw_request model middleware0 s1;
          ctx = \<lparr>ctx_on_chunk = (if on_chunk then Some WrapChunks else None),
                 ctx_context = context\<rparr>;
          s4 = log (Dispatched (heap s3 middleware) context) s3
      in dispatch on_chunk model formatter (heap s3 middleware) 0 request ctx s4)"

text \<open>
  First part: \<^verbatim>\<open>resolve_parameters\<close> and \<^verbatim>\<open>apply_format\<close>, which rebinds \<^verbatim>\<open>raw_request\<close>.
  \<^verbatim>\<open>assert_valid_tool_names\<close> does nothing in the source and has no part here.
\<close>

definition generate_turn :: "env \<Rightarrow> Registry \<Rightarrow> GenerateActionOptions \<Rightarrow> bool \<Rightarrow> int \<Rightarrow> int
    \<Rightarrow> nat option \<Rightarrow> context_map option \<Rightarrow> state \<Rightarrow> turn_outcome \<times> state" where
  "generate_turn E registry raw_request0 on_chunk message_index0 current_turn middleware0 context s0 =
     (case resolve_parameters registry raw_request0 of
        Inl e \<Rightarrow> (Raise e, s0)
      | Inr (model, tools, format_def) \<Rightarrow>
          (case apply_format E raw_request0 format_def of
             Inl e \<Rightarrow> (Raise e, s0)
           | Inr (raw_request, formatter) \<Rightarrow>
               (case dispatch_turn E raw_request model tools formatter on_chunk message_index0
                       middleware0 context s0 of
                  (Inl e, s5) \<Rightarrow> (Raise e, s5)
                | (Inr model_response, s5) \<Rightarrow>
                    conclude_turn E registry raw_request
                      (action_to_generate_request raw_request tools model)
                      formatter on_chunk current_turn model_response s5)))"

lemma apply_format_max_turns:
  "apply_format E r fd = Inr (r', f) \<Longrightarrow> opt_max_turns r' = opt_max_turns r"
  by (cases fd; cases "opt_output r")
     (auto simp: apply_format_def Let_def)

lemma resolve_tool_requests_Inr:
  "resolve_tool_requests E registry r m s = (Inr (rv, tm, pre), s')
   \<Longrightarrow> rv = None \<and> pre = None \<and> msg_role tm = TOOL"
  by (auto simp: resolve_tool_requests_def Let_def split: option.splits sum.splits prod.splits)

lemma conclude_turn_Recurse:
  assumes "conclude_turn E registry r req f oc ct mr s = (Recurse r' mi', s')"
  shows "opt_max_turns r' = opt_max_turns r \<and> ct + 1 \<le> max_iters r"
proof -
  let ?resp = "wrap_response mr req f"
  from assms have v: "assert_valid E ?resp = None"
    by (cases "assert_valid E ?resp") (simp_all add: conclude_turn_def Let_def)
  from assms v have go: "\<not> (opt_return_tool_requests r = Some True
        \<or> length (filter (\<lambda>x. tool_request x \<noteq> None) (msg_content (rw_message ?resp))) = 0)"
    by (auto simp: conclude_turn_def Let_def split: option.splits if_splits)
  from assms v go have le: "\<not> ct + 1 > max_iters r"
    by (auto simp: conclude_turn_def Let_def)
  obtain res s6 where rt: "resolve_tool_requests E registry r (rw_message ?resp) s = (res, s6)"
    by (cases "resolve_tool_requests E registry r (rw_message ?resp) s")
  from assms v go le rt obtain tm where "r' = r\<lparr>opt_messages := opt_messages r @ [rw_message ?resp, tm]\<rparr>"
    by (cases res)
       (auto simp: conclude_turn_def Let_def apply_transfer_preamble_def
             dest!: resolve_tool_requests_Inr split: option.splits)
  with le show ?thesis by simp
qed

lemma generate_turn_Recurse:
  assumes "generate_turn E registry r oc mi ct mw cx s = (Recurse r' mi', s')"
  shows "max_iters r' = max_iters r \<and> ct + 1 \<le> max_iters r"
proof -
  from assms obtain model tools fd where rp: "resolve_parameters registry r = Inr (model, tools, fd)"
    by (cases "resolve_parameters registry r") (auto simp: generate_turn_def)
  from assms rp obtain r1 f where af: "apply_format E r fd = Inr (r1, f)"
    by (cases "apply_format E r fd") (auto simp: generate_turn_def)
  obtain res s5 where d: "dispatch_turn E r1 model tools f oc mi mw cx s = (res, s5)"
    by (cases "dispatch_turn E r1 model tools f oc mi mw cx s")
  from assms rp af d obtain mr where
    "conclude_turn E registry r1 (action_to_generate_request r1 tools model) f oc ct mr s5
       = (Recurse r' mi', s')"
    by (cases res) (auto simp: generate_turn_def)
  from conclude_turn_Recurse [OF this] apply_format_max_turns [OF af]
  show ?thesis by (simp add: max_iters_def)
qed

text \<open>
  The recursive call passes the next request, the turn and the message index, and the
  callback; \<^verbatim>\<open>middleware\<close> and \<^verbatim>\<open>context\<close> take their default \<^verbatim>\<open>None\<close>.
\<close>

function generate_action :: "env \<Rightarrow> Registry \<Rightarrow> GenerateActionOptions \<Rightarrow> bool \<Rightarrow> int \<Rightarrow> int
    \<Rightarrow> nat option \<Rightarrow> context_map option \<Rightarrow> state
    \<Rightarrow> (exn + GenerateResponseWrapper) \<times> state" where
  "generate_action E registry raw_request on_chunk message_index0 current_turn middleware context s =
     (case generate_turn E registry raw_request on_chunk message_index0 current_turn
             middleware context s of
        (Return response, s') \<Rightarrow> (Inr response, s')
      | (Raise e, s') \<Rightarrow> (Inl e, s')
      | (Recurse next_request next_index, s') \<Rightarrow>
          generate_action E registry next_request on_chunk next_index (current_turn + 1)
            None None s')"
  by pat_completeness auto
termination
proof (relation "measure (\<lambda>(E, registry, r, oc, mi, ct, mw, cx, s). nat (max_iters r - ct))")
  show "wf (measure (\<lambda>(E, registry, r, oc, mi, ct, mw, cx, s). nat (max_iters r - ct)))"
    by simp
next
  fix E registry r oc mi ct mw cx s x y next_request next_index
  assume "(x, y) = generate_turn E registry r oc mi ct mw cx s"
    and "x = Recurse next_request next_index"
  then have "generate_turn E registry r oc mi ct mw cx s = (Recurse next_request next_index, y)"
    by simp
  from generate_turn_Recurse [OF this]
  show "((E, registry, next_request, oc, next_index, ct + 1, None, None, y),
         (E, registry, r, oc, mi, ct, mw, cx, s))
        \<in> measure (\<lambda>(E, registry, r, oc, mi, ct, mw, cx, s). nat (max_iters r - ct))"
    by simp
qed

subsection \<open>Reading the log\<close>

fun is_model_call :: "event \<Rightarrow> bool" where
  "is_model_call (ModelCall req c st) = True"
| "is_model_call _ = False"

definition model_calls :: "event list \<Rightarrow> nat" where
  "model_calls es = length (filter is_model_call es)"

fun model_request :: "event \<Rightarrow> GenerateRequest option" where
  "model_request (ModelCall req c st) = Some req"
| "model_request _ = None"

fun dispatched :: "event \<Rightarrow> (ModelMiddleware list \<times> context_map option) option" where
  "dispatched (Dispatched chain c) = Some (chain, c)"
| "dispatched _ = None"

definition dispatches :: "event list \<Rightarrow> (ModelMiddleware list \<times> context_map option) list" where
  "dispatches es = List.map_filter dispatched es"

fun chunk_out :: "event \<Rightarrow> (Role \<times> GenerateResponseChunkWrapper) option" where
  "chunk_out (OnChunk role w) = Some (role, w)"
| "chunk_out _ = None"

text \<open>The chunks given to the callback, as (role, index), and their previous-chunks snapshots.\<close>

definition chunk_log :: "event list \<Rightarrow> (Role \<times> int) list" where
  "chunk_log es = map (\<lambda>(role, w). (role, cw_index w)) (List.map_filter chunk_out es)"

definition chunk_snapshots :: "event list \<Rightarrow> GenerateResponseChunk list list" where
  "chunk_snapshots es = map (\<lambda>(role, w). cw_previous_chunks w) (List.map_filter chunk_out es)"

fun tool_run :: "event \<Rightarrow> ToolRequest option" where
  "tool_run (ToolRun tr) = Some tr"
| "tool_run _ = None"

definition tool_runs :: "event list \<Rightarrow> ToolRequest list" where
  "tool_runs es = List.map_filter tool_run es"

text \<open>What a call added to the log.\<close>

definition new_events :: "state \<Rightarrow> state \<Rightarrow> event list" where
  "new_events s s' = drop (length (trace s)) (trace s')"

text \<open>The error of the turn bound: a \<open>GenerationResponseError\<close> with status \<^verbatim>\<open>ABORTED\<close>.\<close>

fun aborted :: "exn + GenerateResponseWrapper \<Rightarrow> bool" where
  "aborted (Inl (GenerationResponseError response msg status request)) = (status = ''ABORTED'')"
| "aborted _ = False"

subsection \<open>Collaborators of the examples\<close>

text \<open>
  A context middleware that appends the documents as a user message, validations that
  always pass, and a state with an empty log and no list objects.
\<close>

definition aug0 :: ModelMiddleware where
  "aug0 = (\<lambda>req ctx. CallNext
      (Some (req\<lparr>req_messages := req_messages req @
         [\<lparr>msg_role = USER,
           msg_content = map TextPart (case req_docs req of Some ds \<Rightarrow> ds | None \<Rightarrow> [])\<rparr>]\<rparr>))
      None (\<lambda>r. r))"

definition E0 :: env where
  "E0 = \<lparr>inject_instructions = (\<lambda>ms i. ms), augment_with_context = aug0,
         dump_dict = (\<lambda>p. p), assert_valid = (\<lambda>r. None), assert_valid_schema = (\<lambda>r. None)\<rparr>"

definition s0 :: state where
  "s0 = \<lparr>message_index = 0, chunk_role = MODEL, prev_chunks = [], trace = [],
         heap = (\<lambda>a. []), next_addr = 0\<rparr>"

text \<open>A tool action that returns a fixed output or raises, whatever its input.\<close>

definition tool_action :: "string \<Rightarrow> exn + payload \<Rightarrow> Action" where
  "tool_action n result =
     \<lparr>act_name = n, act_description = None, act_input_schema = None, act_output_schema = None,
      act_metadata = None,
      act_arun = (\<lambda>h req c st. ([], Inl (Raised ''not a model''))),
      act_arun_raw = (\<lambda>h p. result)\<rparr>"

text \<open>
  A model action that answers its \<open>k\<close>-th call with the \<open>k\<close>-th entry of a script: the chunks
  to stream and the parts of the reply. It does not declare context support.
\<close>

definition scripted_model :: "(GenerateResponseChunk list \<times> Part list) list \<Rightarrow> Action" where
  "scripted_model script =
     \<lparr>act_name = ''m'', act_description = None, act_input_schema = None, act_output_schema = None,
      act_metadata = None,
      act_arun = (\<lambda>h req c st.
         if model_calls h < length script
         then (fst (script ! model_calls h),
               Inr \<lparr>resp_message = \<lparr>msg_role = MODEL, msg_content = snd (script ! model_calls h)\<rparr>,
                    resp_finish_reason = None, resp_finish_message = None\<rparr>)
         else ([], Inl (Raised ''script exhausted''))),
      act_arun_raw = (\<lambda>h p. Inl (Raised ''not a tool''))\<rparr>"

text \<open>A registry with one model, named \<^verbatim>\<open>m\<close>, the given tools, and no formats.\<close>

definition registry_of :: "Action \<Rightarrow> Action list \<Rightarrow> Registry" where
  "registry_of model tools =
     \<lparr>default_model = None,
      lookup_action = (\<lambda>k n. if k = KModel then (if n = ''m'' then Some model else None)
                              else find (\<lambda>t. act_name t = n) tools),
      lookup_value = (\<lambda>category n. None)\<rparr>"

definition request_of :: "string list option \<Rightarrow> int option \<Rightarrow> GenerateActionOptions" where
  "request_of tools max_turns =
     \<lparr>opt_model = Some ''m'', opt_docs = None,
      opt_messages = [\<lparr>msg_role = USER, msg_content = [TextPart ''hi'']\<rparr>],
      opt_tools = tools, opt_tool_choice = None, opt_config = None, opt_output = None,
      opt_return_tool_requests = None, opt_max_turns = max_turns\<rparr>"

definition call_tool :: "string \<Rightarrow> Part" where
  "call_tool n = ToolRequestPart \<lparr>tq_name = n, tq_ref = None, tq_input = ''[1,2]''\<rparr>"

definition text_chunk :: "string \<Rightarrow> GenerateResponseChunk" where
  "text_chunk t = \<lparr>gc_role = Some MODEL, gc_content = [TextPart t]\<rparr>"

text \<open>The output configuration of the request \<^verbatim>\<open>apply_format\<close> returns.\<close>

definition formatted_output :: "exn + GenerateActionOptions \<times> Formatter option
    \<Rightarrow> GenerateActionOutputConfig option" where
  "formatted_output res = (case res of Inr (r, f) \<Rightarrow> opt_output r | Inl e \<Rightarrow> None)"

text \<open>A registered tool with a namespaced name.\<close>

definition add_tool :: Action where
  "add_tool = tool_action ''mathPlugin/add'' (Inr ''3'')"

text \<open>
  A format that asks for constrained JSON output, and an output configuration that names
  a format and sets \<^verbatim>\<open>constrained\<close>, the content type and the wire format itself.
\<close>

definition json_format :: FormatDef where
  "json_format =
     \<lparr>fd_config = \<lparr>fc_default_instructions = None, fc_constrained = Some True,
                    fc_content_type = Some ''application/json'', fc_format = Some ''json''\<rparr>,
      fd_make = (\<lambda>schema. \<lparr>fmt_instructions = None, fmt_parse_message = (\<lambda>m. []),
                             fmt_parse_chunk = (\<lambda>c. [])\<rparr>)\<rparr>"

definition explicit_output :: GenerateActionOutputConfig where
  "explicit_output =
     \<lparr>out_format = Some ''myformat'', out_content_type = Some ''text/plain'',
      out_instructions = None, out_json_schema = None, out_constrained = Some False\<rparr>"

text \<open>A reply with two tool requests, for the tools \<^verbatim>\<open>good\<close> and \<^verbatim>\<open>missing\<close>.\<close>

definition good_request :: ToolRequest where
  "good_request = \<lparr>tq_name = ''good'', tq_ref = None, tq_input = ''[1,2]''\<rparr>"

definition missing_request :: ToolRequest where
  "missing_request = \<lparr>tq_name = ''missing'', tq_ref = None, tq_input = ''[1,2]''\<rparr>"

definition two_tool_requests :: Message where
  "two_tool_requests =
     \<lparr>msg_role = MODEL,
      msg_content = [ToolRequestPart good_request, ToolRequestPart missing_request]\<rparr>"

subsection \<open>What one activation adds to the log\<close>

text \<open>
  The model's chunks as they reach the callback in an activation that starts at message
  index \<open>mi\<close>: each with role \<^verbatim>\<open>model\<close>, the index \<open>mi\<close>, and as previous chunks the chunks
  sent before it, after \<open>pre\<close>.
\<close>

fun model_chunk_events :: "Formatter option \<Rightarrow> int \<Rightarrow> GenerateResponseChunk list
    \<Rightarrow> GenerateResponseChunk list \<Rightarrow> event list" where
  "model_chunk_events f mi pre [] = []"
| "model_chunk_events f mi pre (c # cs) =
     OnChunk MODEL \<lparr>cw_chunk = c, cw_index = mi, cw_previous_chunks = pre,
       cw_chunk_parser = (case f of Some g \<Rightarrow> Some (fmt_parse_chunk g) | None \<Rightarrow> None)\<rparr>
     # model_chunk_events f mi (pre @ [c]) cs"

text \<open>
  The context middleware the activation adds, as a list (empty when it adds none), the
  chain it dispatches with, and the content of the list object at address \<open>b\<close> after it.
\<close>

definition context_middleware :: "env \<Rightarrow> GenerateActionOptions \<Rightarrow> Action \<Rightarrow> ModelMiddleware list" where
  "context_middleware E r model =
     (if docs_present r \<and> \<not> supports_context model then [augment_with_context E] else [])"

definition turn_chain :: "env \<Rightarrow> GenerateActionOptions \<Rightarrow> Action \<Rightarrow> nat option \<Rightarrow> state
    \<Rightarrow> ModelMiddleware list" where
  "turn_chain E r model mw s =
     (case mw of None \<Rightarrow> [] | Some a \<Rightarrow> heap s a)
     @ (if docs_present r \<and> \<not> supports_context model then [augment_with_context E] else [])"

definition heap_after :: "env \<Rightarrow> GenerateActionOptions \<Rightarrow> Action \<Rightarrow> nat option \<Rightarrow> state
    \<Rightarrow> nat \<Rightarrow> ModelMiddleware list" where
  "heap_after E r model mw s b =
     (if mw = Some b \<and> heap s b \<noteq> [] \<and> docs_present r \<and> \<not> supports_context model
      then heap s b @ [augment_with_context E] else heap s b)"

text \<open>The requests the model was called with, and the wrapped chunks given to the callback.\<close>

definition model_requests :: "event list \<Rightarrow> GenerateRequest list" where
  "model_requests es = List.map_filter model_request es"

definition wrappers :: "event list \<Rightarrow> GenerateResponseChunkWrapper list" where
  "wrappers es = map snd (List.map_filter chunk_out es)"

text \<open>
  The wrapped chunks grouped by activation: a new group starts at every \<open>Dispatched\<close>
  entry, the first group holds what precedes the first one.
\<close>

fun turn_chunks :: "event list \<Rightarrow> GenerateResponseChunkWrapper list list" where
  "turn_chunks [] = [[]]"
| "turn_chunks (Dispatched chain c # es) = [] # turn_chunks es"
| "turn_chunks (OnChunk role w # es) = (w # hd (turn_chunks es)) # tl (turn_chunks es)"
| "turn_chunks (e # es) = turn_chunks es"

text \<open>
  Every chunk of the group carries as previous chunks exactly \<open>pre\<close> followed by the raw
  chunks of the group before it.
\<close>

fun history_ok :: "GenerateResponseChunk list \<Rightarrow> GenerateResponseChunkWrapper list \<Rightarrow> bool" where
  "history_ok pre [] = True"
| "history_ok pre (w # ws) = (cw_previous_chunks w = pre \<and> history_ok (pre @ [cw_chunk w]) ws)"

text \<open>
  From one chunk to the next the index stays when both have the role \<^verbatim>\<open>model\<close>, and
  grows by one otherwise.
\<close>

definition index_step :: "Role \<times> int \<Rightarrow> Role \<times> int \<Rightarrow> bool" where
  "index_step a b = (snd b = (if fst a = MODEL \<and> fst b = MODEL then snd a else snd a + 1))"

definition index_steps_ok :: "(Role \<times> int) list \<Rightarrow> bool" where
  "index_steps_ok xs = successively index_step xs"

subsection \<open>More collaborators of the examples\<close>

text \<open>
  A tool \<^verbatim>\<open>t\<close>; models that keep asking for it, that stream two chunks before asking
  and one with the final text, that stream on the first call only, that ask once, and
  that answer with text at once.
\<close>

definition ok_tool :: Action where
  "ok_tool = tool_action ''t'' (Inr ''ok'')"

definition always_tool :: Action where
  "always_tool = scripted_model [([], [call_tool ''t'']), ([], [call_tool ''t'']), ([], [call_tool ''t''])]"

definition streaming_model :: Action where
  "streaming_model = scripted_model
     [([text_chunk ''a'', text_chunk ''b''], [call_tool ''t'']),
      ([text_chunk ''c''], [TextPart ''done''])]"

definition quiet_second_turn :: Action where
  "quiet_second_turn = scripted_model
     [([text_chunk ''a''], [call_tool ''t'']),
      ([], [call_tool ''t'']),
      ([], [TextPart ''done''])]"

definition tool_then_text :: Action where
  "tool_then_text = scripted_model [([], [call_tool ''t'']), ([], [TextPart ''done''])]"

definition text_only :: Action where
  "text_only = scripted_model [([], [TextPart ''done''])]"

text \<open>
  A caller's middleware that appends a system message and calls \<^verbatim>\<open>next\<close>, a request
  with a document, and a state in which the caller's middleware list is the object at
  address \<open>0\<close>.
\<close>

definition tag_middleware :: ModelMiddleware where
  "tag_middleware = (\<lambda>req ctx. CallNext
      (Some (req\<lparr>req_messages := req_messages req @
         [\<lparr>msg_role = SYSTEM, msg_content = [TextPart ''tag'']\<rparr>]\<rparr>))
      None (\<lambda>r. r))"

definition docs_request :: GenerateActionOptions where
  "docs_request = (request_of (Some [''t'']) None)\<lparr>opt_docs := Some [''doc'']\<rparr>"

definition caller_state :: state where
  "caller_state = s0\<lparr>heap := (\<lambda>a. if a = 0 then [tag_middleware] else []), next_addr := 1\<rparr>"

subsection \<open>One pass of the loop over the tool requests\<close>

text \<open>
  What the body of the loop of \<^verbatim>\<open>resolve_tool_requests\<close> does with the tool request \<open>p\<close>
  when \<^verbatim>\<open>request.tools\<close> is \<open>names\<close> and the log so far is \<open>h\<close>: it raises the
  \<^verbatim>\<open>RuntimeError\<close> for a name that is not a key of \<^verbatim>\<open>tool_dict\<close>, it raises on \<^verbatim>\<open>None\<close>
  for a key the registry does not know, and otherwise it gives what \<^verbatim>\<open>tool.arun_raw\<close>
  returns or raises. \<open>tool_called\<close> tells whether \<^verbatim>\<open>tool.arun_raw\<close> is reached.
\<close>

definition tool_called :: "Registry \<Rightarrow> string list \<Rightarrow> ToolRequest \<Rightarrow> bool" where
  "tool_called registry names p =
     (tq_name p \<in> set names \<and> lookup_action registry KTool (tq_name p) \<noteq> None)"

definition request_outcome :: "Registry \<Rightarrow> string list \<Rightarrow> event list \<Rightarrow> ToolRequest
    \<Rightarrow> exn + payload" where
  "request_outcome registry names h p =
     (if tq_name p \<notin> set names
      then Inl (RuntimeError (''failed '' @ tq_name p @ '' not found''))
      else (case lookup_action registry KTool (tq_name p) of
              None \<Rightarrow> Inl (AttributeError ''NoneType object has no attribute arun_raw'')
            | Some tool \<Rightarrow> act_arun_raw tool h (tq_input p)))"

subsection \<open>Collaborators that change the reply\<close>





section \<open>Properties\<close>

subsection \<open>Tool names (C2)\<close>

lemma build_tool_dict_fold:
  "foldl (\<lambda>tool_dict tool_name. tool_dict(tool_name \<mapsto> resolve_tool registry tool_name)) d names n
   = (if n \<in> set names then Some (resolve_tool registry n) else d n)"
  by (induction names arbitrary: d) auto

lemma build_tool_dict_apply:
  "build_tool_dict registry names n
   = (if n \<in> set names then Some (resolve_tool registry n) else None)"
  by (simp add: build_tool_dict_def build_tool_dict_fold)

text \<open>
  For every name with a \<^verbatim>\<open>/\<close> the definition sent to the model has the part after the last
  \<^verbatim>\<open>/\<close> as its name and the registered name as \<^verbatim>\<open>originalName\<close>; and a tool request with
  the exposed name, first in the reply, fails unless that name is itself one of the
  request's tool names.
\<close>

lemma rfind_absent: "c \<notin> set s \<Longrightarrow> rfind s c = - 1"
  by (induction s) (auto simp: Let_def)

lemma rfind_present:
  "c \<in> set s \<Longrightarrow> 0 \<le> rfind s c \<and> nat (rfind s c) < length s \<and> s ! nat (rfind s c) = c
     \<and> c \<notin> set (drop (nat (rfind s c) + 1) s)"
proof (induction s)
  case Nil
  then show ?case by simp
next
  case (Cons x xs)
  show ?case
  proof (cases "c \<in> set xs")
    case True
    from Cons.IH [OF True] show ?thesis
      by (auto simp: Let_def nat_add_distrib)
  next
    case False
    with Cons.prems have "x = c" by simp
    with False rfind_absent [OF False] show ?thesis
      by (simp add: Let_def)
  qed
qed

lemma to_tool_definition_namespaced:
  assumes "CHR ''/'' \<in> set (act_name tool)"
  shows "\<exists>pre. act_name tool = pre @ ''/'' @ td_name (to_tool_definition tool)
     \<and> CHR ''/'' \<notin> set (td_name (to_tool_definition tool))
     \<and> td_metadata (to_tool_definition tool) = Some [(''originalName'', act_name tool)]"
proof -
  let ?n = "act_name tool"
  let ?k = "nat (rfind ?n CHR ''/'')"
  from rfind_present [OF assms]
  have k: "?k < length ?n" "?n ! ?k = CHR ''/''" "CHR ''/'' \<notin> set (drop (?k + 1) ?n)"
    by simp_all
  have nm: "td_name (to_tool_definition tool) = drop (?k + 1) ?n"
    using assms rfind_present [OF assms] by (simp add: to_tool_definition_def Let_def nat_add_distrib)
  have split: "?n = take ?k ?n @ ''/'' @ drop (?k + 1) ?n"
    using k(1,2) by (metis Cons_nth_drop_Suc append_Cons append_Nil append_take_drop_id Suc_eq_plus1)
  have "length (drop (?k + 1) ?n) < length ?n" using k(1) by simp
  then have ne: "?n \<noteq> drop (?k + 1) ?n" by (metis less_irrefl)
  have md: "td_metadata (to_tool_definition tool) = Some [(''originalName'', ?n)]"
    using assms ne rfind_present [OF assms]
    by (simp add: to_tool_definition_def Let_def nat_add_distrib)
  from split k(3) md show ?thesis
    unfolding nm by blast
qed

lemma exposed_name_not_resolved:
  assumes "opt_tools request = Some names"
    and "List.map_filter tool_request (msg_content message) = tr # rest"
    and "tq_name tr = td_name (to_tool_definition tool)"
    and "td_name (to_tool_definition tool) \<notin> set names"
  shows "resolve_tool_requests E registry request message s
     = (Inl (RuntimeError (''failed '' @ td_name (to_tool_definition tool) @ '' not found'')), s)"
  using assms
  by (simp add: resolve_tool_requests_def build_tool_dict_apply)

text \<open>
  C2. The tool registered as \<^verbatim>\<open>mathPlugin/add\<close> is sent to the model as \<^verbatim>\<open>add\<close>, with
  \<^verbatim>\<open>metadata.originalName\<close> the registered name. When the model's reply requests \<^verbatim>\<open>add\<close>,
  \<^verbatim>\<open>resolve_tool_requests\<close> looks the short name up among the registered names of the
  request and raises \<^verbatim>\<open>RuntimeError('failed add not found')\<close>: the tool is not run.
\<close>

theorem namespaced_tool_not_resolved:
  "td_name (to_tool_definition add_tool) = ''add''
   \<and> td_metadata (to_tool_definition add_tool) = Some [(''originalName'', ''mathPlugin/add'')]
   \<and> resolve_tool_requests E0 (registry_of (scripted_model []) [add_tool])
        (request_of (Some [''mathPlugin/add'']) None)
        \<lparr>msg_role = MODEL, msg_content = [call_tool ''add'']\<rparr> s0
      = (Inl (RuntimeError ''failed add not found''), s0)"
  by (simp add: to_tool_definition_def add_tool_def tool_action_def Let_def
      resolve_tool_requests_def request_of_def call_tool_def List.map_filter_simps
      build_tool_dict_apply)

subsection \<open>Format precedence (C4)\<close>

text \<open>
  C4, as the code has it. With a format and an output configuration on the request,
  \<^verbatim>\<open>apply_format\<close> returns a request whose \<^verbatim>\<open>output.constrained\<close> is the request's own
  value when that is set (also when it is \<^verbatim>\<open>False\<close>) and the format's otherwise; whose
  content type and wire format are the format's when the format sets them, and the
  request's own otherwise. The other fields of the output configuration are unchanged.
\<close>

theorem apply_format_precedence:
  assumes "opt_output raw_request = Some raw_out"
  shows "formatted_output (apply_format E raw_request (Some fd)) =
     Some (raw_out\<lparr>
       out_constrained := (case out_constrained raw_out of
                             Some c \<Rightarrow> Some c | None \<Rightarrow> fc_constrained (fd_config fd)),
       out_content_type := (case fc_content_type (fd_config fd) of
                              Some t \<Rightarrow> Some t | None \<Rightarrow> out_content_type raw_out),
       out_format := (case fc_format (fd_config fd) of
                        Some f \<Rightarrow> Some f | None \<Rightarrow> out_format raw_out)\<rparr>)"
  using assms
  by (simp add: apply_format_def formatted_output_def Let_def split: option.split)

theorem apply_format_precedence_witness:
  "opt_output ((request_of None None)\<lparr>opt_output := Some explicit_output\<rparr>) = Some explicit_output
   \<and> formatted_output (apply_format E0
        ((request_of None None)\<lparr>opt_output := Some explicit_output\<rparr>) (Some json_format))
     = Some \<lparr>out_format = Some ''json'', out_content_type = Some ''application/json'',
             out_instructions = None, out_json_schema = None, out_constrained = Some False\<rparr>"
  using apply_format_precedence [of "(request_of None None)\<lparr>opt_output := Some explicit_output\<rparr>"
      explicit_output E0 json_format]
  by (simp add: explicit_output_def json_format_def)

text \<open>
  The claim as stated fails for the content type and the wire format: the request asks
  for \<^verbatim>\<open>text/plain\<close> and \<^verbatim>\<open>myformat\<close>, the format for \<^verbatim>\<open>application/json\<close> and \<^verbatim>\<open>json\<close>,
  and the returned request carries the format's values.
\<close>

theorem apply_format_content_type_counterexample:
  "out_content_type explicit_output = Some ''text/plain''
   \<and> out_format explicit_output = Some ''myformat''
   \<and> map_option out_content_type (formatted_output (apply_format E0
        ((request_of None None)\<lparr>opt_output := Some explicit_output\<rparr>) (Some json_format)))
     = Some (Some ''application/json'')
   \<and> map_option out_format (formatted_output (apply_format E0
        ((request_of None None)\<lparr>opt_output := Some explicit_output\<rparr>) (Some json_format)))
     = Some (Some ''json'')"
  by (simp add: apply_format_def formatted_output_def Let_def explicit_output_def
      json_format_def request_of_def)

subsection \<open>Unresolvable tool requests (C7)\<close>

lemma run_tool_requests_first_failure:
  assumes "j < length reqs"
    and "\<forall>i<j. \<exists>out. request_outcome registry names (trace s @ map ToolRun (take i reqs)) (reqs ! i)
            = Inr out"
    and "request_outcome registry names (trace s @ map ToolRun (take j reqs)) (reqs ! j) = Inl e"
  shows "run_tool_requests E (build_tool_dict registry names) reqs parts s
     = (Inl e, s\<lparr>trace := trace s @ map ToolRun
                   (take (if tool_called registry names (reqs ! j) then Suc j else j) reqs)\<rparr>)"
  using assms
proof (induction reqs arbitrary: j parts s)
  case Nil
  then show ?case by simp
next
  case (Cons p ps)
  show ?case
  proof (cases j)
    case 0
    have d: "build_tool_dict registry names (tq_name p)
        = (if tq_name p \<in> set names then Some (lookup_action registry KTool (tq_name p)) else None)"
      by (simp add: build_tool_dict_apply resolve_tool_def)
    from Cons.prems(3) 0 show ?thesis
      by (auto simp: request_outcome_def tool_called_def d log_def
          split: if_splits option.splits)
  next
    case (Suc j')
    from Cons.prems(2) Suc obtain out where
      o: "request_outcome registry names (trace s) p = Inr out"
      by fastforce
    then obtain tool where t: "tq_name p \<in> set names"
        "lookup_action registry KTool (tq_name p) = Some tool"
        "act_arun_raw tool (trace s) (tq_input p) = Inr out"
      by (auto simp: request_outcome_def split: if_splits option.splits)
    let ?s = "log (ToolRun p) s"
    let ?parts = "parts @ [ToolResponsePart \<lparr>tp_name = tq_name p, tp_ref = tq_ref p,
                                       tp_output = dump_dict E out\<rparr>]"
    have a: "j' < length ps" using Cons.prems(1) Suc by simp
    have b: "\<forall>i<j'. \<exists>out. request_outcome registry names (trace ?s @ map ToolRun (take i ps)) (ps ! i)
            = Inr out"
    proof (intro allI impI)
      fix i assume "i < j'"
      then have "Suc i < j" using Suc by simp
      with Cons.prems(2) obtain out where
        "request_outcome registry names (trace s @ map ToolRun (take (Suc i) (p # ps))) ((p # ps) ! Suc i)
            = Inr out" by blast
      then show "\<exists>out. request_outcome registry names (trace ?s @ map ToolRun (take i ps)) (ps ! i)
            = Inr out" by (simp add: log_def)
    qed
    have c: "request_outcome registry names (trace ?s @ map ToolRun (take j' ps)) (ps ! j') = Inl e"
      using Cons.prems(3) Suc by (simp add: log_def)
    from Cons.IH [OF a b c, of ?parts]
    have "run_tool_requests E (build_tool_dict registry names) ps ?parts ?s
       = (Inl e, ?s\<lparr>trace := trace ?s @ map ToolRun
                   (take (if tool_called registry names (ps ! j') then Suc j' else j') ps)\<rparr>)" .
    moreover have "build_tool_dict registry names (tq_name p) = Some (Some tool)"
      using t by (simp add: build_tool_dict_apply resolve_tool_def)
    ultimately show ?thesis
      using t(3) Suc by (simp add: log_def)
  qed
qed

text \<open>
  C7, as the code has it. \<^verbatim>\<open>request.tools\<close> is a list \<open>names\<close>, and the tool requests of the
  message are \<open>pre\<close>, then a request \<open>tr\<close> whose name is not in \<open>names\<close>, then \<open>rest\<close>. Then
  \<^verbatim>\<open>resolve_tool_requests\<close> fails, and how it fails is determined by the requests before \<open>tr\<close>,
  each taken after the log that the requests before it have left.
  When every request of \<open>pre\<close> runs its tool without an error, the failure is
  \<^verbatim>\<open>RuntimeError('failed <name of tr> not found')\<close>, raised after the tools of all of \<open>pre\<close>
  have run, in order, and no other.
  When the request at position \<open>j\<close> is the first of \<open>pre\<close> that fails, with the error \<open>e\<close>,
  the failure is \<open>e\<close>, and the tools that have run are those of the requests before position
  \<open>j\<close>, and that of position \<open>j\<close> when the error is its tool's.
  In both cases no tool is run for \<open>tr\<close> or for a request after it.
\<close>

theorem resolve_tool_requests_unresolved:
  assumes "opt_tools request = Some names"
    and "List.map_filter tool_request (msg_content message) = pre @ tr # rest"
    and "tq_name tr \<notin> set names"
  shows "((\<forall>i<length pre. \<exists>out.
             request_outcome registry names (trace s @ map ToolRun (take i pre)) (pre ! i) = Inr out)
          \<longrightarrow> resolve_tool_requests E registry request message s
              = (Inl (RuntimeError (''failed '' @ tq_name tr @ '' not found'')),
                 s\<lparr>trace := trace s @ map ToolRun pre\<rparr>))
     \<and> (\<forall>j e. j < length pre
          \<and> (\<forall>i<j. \<exists>out.
                request_outcome registry names (trace s @ map ToolRun (take i pre)) (pre ! i) = Inr out)
          \<and> request_outcome registry names (trace s @ map ToolRun (take j pre)) (pre ! j) = Inl e
          \<longrightarrow> resolve_tool_requests E registry request message s
              = (Inl e, s\<lparr>trace := trace s @ map ToolRun
                   (take (if tool_called registry names (pre ! j) then Suc j else j) pre)\<rparr>))"
proof (intro conjI allI impI)
  let ?all = "pre @ tr # rest"
  assume ok: "\<forall>i<length pre. \<exists>out.
             request_outcome registry names (trace s @ map ToolRun (take i pre)) (pre ! i) = Inr out"
  have a: "length pre < length ?all" by simp
  have b: "\<forall>i<length pre. \<exists>out.
      request_outcome registry names (trace s @ map ToolRun (take i ?all)) (?all ! i) = Inr out"
    using ok by (simp add: nth_append)
  have c: "request_outcome registry names (trace s @ map ToolRun (take (length pre) ?all))
      (?all ! length pre) = Inl (RuntimeError (''failed '' @ tq_name tr @ '' not found''))"
    using assms(3) by (simp add: request_outcome_def)
  have "run_tool_requests E (build_tool_dict registry names) ?all [] s
     = (Inl (RuntimeError (''failed '' @ tq_name tr @ '' not found'')),
        s\<lparr>trace := trace s @ map ToolRun pre\<rparr>)"
    using run_tool_requests_first_failure [OF a b c, of E "[]"] assms(3)
    by (simp add: tool_called_def)
  with assms(1,2)
  show "resolve_tool_requests E registry request message s
              = (Inl (RuntimeError (''failed '' @ tq_name tr @ '' not found'')),
                 s\<lparr>trace := trace s @ map ToolRun pre\<rparr>)"
    by (simp add: resolve_tool_requests_def)
next
  let ?all = "pre @ tr # rest"
  fix j e
  assume h: "j < length pre
          \<and> (\<forall>i<j. \<exists>out.
                request_outcome registry names (trace s @ map ToolRun (take i pre)) (pre ! i) = Inr out)
          \<and> request_outcome registry names (trace s @ map ToolRun (take j pre)) (pre ! j) = Inl e"
  then have j: "j < length pre" by simp
  have a: "j < length ?all" using j by simp
  have b: "\<forall>i<j. \<exists>out.
      request_outcome registry names (trace s @ map ToolRun (take i ?all)) (?all ! i) = Inr out"
    using h by (simp add: nth_append)
  have c: "request_outcome registry names (trace s @ map ToolRun (take j ?all)) (?all ! j) = Inl e"
    using h by (simp add: nth_append)
  have "run_tool_requests E (build_tool_dict registry names) ?all [] s
     = (Inl e, s\<lparr>trace := trace s @ map ToolRun
                   (take (if tool_called registry names (pre ! j) then Suc j else j) pre)\<rparr>)"
    using run_tool_requests_first_failure [OF a b c, of E "[]"] j
    by (simp add: nth_append)
  with assms(1,2)
  show "resolve_tool_requests E registry request message s
              = (Inl e, s\<lparr>trace := trace s @ map ToolRun
                   (take (if tool_called registry names (pre ! j) then Suc j else j) pre)\<rparr>)"
    by (simp add: resolve_tool_requests_def)
qed

theorem resolve_tool_requests_unresolved_witness:
  "opt_tools (request_of (Some [''good'']) None) = Some [''good'']
   \<and> List.map_filter tool_request (msg_content two_tool_requests)
       = [good_request] @ missing_request # []
   \<and> tq_name missing_request \<notin> set [''good'']
   \<and> resolve_tool_requests E0
        (registry_of (scripted_model []) [tool_action ''good'' (Inr ''ok'')])
        (request_of (Some [''good'']) None) two_tool_requests s0
      = (Inl (RuntimeError ''failed missing not found''), s0\<lparr>trace := [ToolRun good_request]\<rparr>)
   \<and> resolve_tool_requests E0
        (registry_of (scripted_model []) [tool_action ''good'' (Inl (Raised ''boom''))])
        (request_of (Some [''good'']) None) two_tool_requests s0
      = (Inl (Raised ''boom''), s0\<lparr>trace := [ToolRun good_request]\<rparr>)"
proof -
  let ?ok = "registry_of (scripted_model []) [tool_action ''good'' (Inr ''ok'')]"
  let ?boom = "registry_of (scripted_model []) [tool_action ''good'' (Inl (Raised ''boom''))]"
  let ?r = "request_of (Some [''good'']) None"
  have a: "opt_tools ?r = Some [''good'']"
    by (simp add: request_of_def)
  have b: "List.map_filter tool_request (msg_content two_tool_requests)
      = [good_request] @ missing_request # []"
    by (simp add: two_tool_requests_def List.map_filter_simps)
  have c: "tq_name missing_request \<notin> set [''good'']"
    by (simp add: missing_request_def)
  have ok: "\<forall>i<length [good_request]. \<exists>out.
      request_outcome ?ok [''good''] (trace s0 @ map ToolRun (take i [good_request]))
        ([good_request] ! i) = Inr out"
    by (simp add: request_outcome_def registry_of_def tool_action_def good_request_def)
  have boom: "0 < length [good_request]
      \<and> (\<forall>i<0. \<exists>out. request_outcome ?boom [''good'']
             (trace s0 @ map ToolRun (take i [good_request])) ([good_request] ! i) = Inr out)
      \<and> request_outcome ?boom [''good''] (trace s0 @ map ToolRun (take 0 [good_request]))
          ([good_request] ! 0) = Inl (Raised ''boom'')"
    by (simp add: request_outcome_def registry_of_def tool_action_def good_request_def)
  have called: "tool_called ?boom [''good''] ([good_request] ! 0)"
    by (simp add: tool_called_def registry_of_def tool_action_def good_request_def)
  note thm1 = resolve_tool_requests_unresolved [OF a b c, where registry = ?ok and s = s0 and E = E0]
  note thm2 = resolve_tool_requests_unresolved [OF a b c, where registry = ?boom and s = s0 and E = E0]
  from thm1 ok
  have r1: "resolve_tool_requests E0 ?ok ?r two_tool_requests s0
      = (Inl (RuntimeError (''failed '' @ tq_name missing_request @ '' not found'')),
         s0\<lparr>trace := trace s0 @ map ToolRun [good_request]\<rparr>)"
    by blast
  from thm2 boom
  have r2: "resolve_tool_requests E0 ?boom ?r two_tool_requests s0
      = (Inl (Raised ''boom''), s0\<lparr>trace := trace s0 @ map ToolRun
           (take (if tool_called ?boom [''good''] ([good_request] ! 0) then Suc 0 else 0)
              [good_request])\<rparr>)"
    by blast
  have e1: "(Inl (RuntimeError (''failed '' @ tq_name missing_request @ '' not found'')),
         s0\<lparr>trace := trace s0 @ map ToolRun [good_request]\<rparr>)
      = ((Inl (RuntimeError ''failed missing not found''), s0\<lparr>trace := [ToolRun good_request]\<rparr>)
          :: (exn + Message option \<times> Message \<times> GenerateActionOptions option) \<times> state)"
    by (simp add: missing_request_def s0_def)
  have e2: "(Inl (Raised ''boom''), s0\<lparr>trace := trace s0 @ map ToolRun
           (take (if tool_called ?boom [''good''] ([good_request] ! 0) then Suc 0 else 0)
              [good_request])\<rparr>)
      = ((Inl (Raised ''boom''), s0\<lparr>trace := [ToolRun good_request]\<rparr>)
          :: (exn + Message option \<times> Message \<times> GenerateActionOptions option) \<times> state)"
    using called by (simp add: s0_def)
  show ?thesis
    using a b c r1 [unfolded e1] r2 [unfolded e2] by (intro conjI)
qed

text \<open>
  The claim as stated fails when an earlier tool request of the same message fails first:
  the tool \<^verbatim>\<open>good\<close> is run and raises, and the operation fails with that error, not with
  the error for the unresolvable \<^verbatim>\<open>missing\<close>.
\<close>

theorem resolve_tool_requests_earlier_failure_counterexample:
  "resolve_tool_requests E0
     (registry_of (scripted_model []) [tool_action ''good'' (Inl (Raised ''boom''))])
     (request_of (Some [''good'']) None) two_tool_requests s0
   = (Inl (Raised ''boom''), s0\<lparr>trace := [ToolRun good_request]\<rparr>)"
  by (simp add: resolve_tool_requests_def request_of_def two_tool_requests_def
      List.map_filter_simps build_tool_dict_apply resolve_tool_def registry_of_def
      tool_action_def log_def s0_def good_request_def)

subsection \<open>The effect of one activation\<close>

declare generate_action.simps [simp del]

lemma apply_format_keeps:
  assumes "apply_format E r fd = Inr (r', f)"
  shows "opt_model r' = opt_model r \<and> opt_docs r' = opt_docs r \<and> opt_tools r' = opt_tools r
     \<and> opt_max_turns r' = opt_max_turns r
     \<and> opt_return_tool_requests r' = opt_return_tool_requests r"
  using assms
  by (cases fd; cases "opt_output r") (auto simp: apply_format_def Let_def)

lemma wrap_chunks_fold:
  assumes "chunk_role s = MODEL"
  shows "foldl (\<lambda>t chunk. wrap_chunks True f chunk t) s cs
    = s\<lparr>prev_chunks := prev_chunks s @ cs,
        trace := trace s @ model_chunk_events f (message_index s) (prev_chunks s) cs\<rparr>"
  using assms
proof (induction cs arbitrary: s)
  case Nil
  then show ?case by simp
next
  case (Cons c cs)
  let ?s1 = "wrap_chunks True f c s"
  from Cons.prems have s1: "?s1 = s\<lparr>prev_chunks := prev_chunks s @ [c],
      trace := trace s @ [OnChunk MODEL \<lparr>cw_chunk = c, cw_index = message_index s,
         cw_previous_chunks = prev_chunks s,
         cw_chunk_parser = (case f of Some g \<Rightarrow> Some (fmt_parse_chunk g) | None \<Rightarrow> None)\<rparr>]\<rparr>"
    by (simp add: wrap_chunks_def send_chunk_def make_chunk_def log_def Let_def)
  have "chunk_role ?s1 = MODEL" using Cons.prems by (simp add: s1)
  from Cons.IH [OF this] show ?case
    by (simp add: s1)
qed

lemma wrap_chunks_fold_off:
  "foldl (\<lambda>t chunk. wrap_chunks False f chunk t) s cs = s"
  by (induction cs) (simp_all add: wrap_chunks_def)

lemma run_model_effect:
  assumes "run_model oc model f req ctx s = (res, s')" and "chunk_role s = MODEL"
  shows "\<exists>cs. (\<not> oc \<longrightarrow> cs = []) \<and> s' = s\<lparr>prev_chunks := prev_chunks s @ cs,
        trace := trace s @ ModelCall req (ctx_context ctx) (is_streaming ctx)
                 # model_chunk_events f (message_index s) (prev_chunks s) cs\<rparr>"
proof -
  obtain chunks r where a: "act_arun model (trace s) req (ctx_context ctx) (is_streaming ctx) = (chunks, r)"
    by (cases "act_arun model (trace s) req (ctx_context ctx) (is_streaming ctx)")
  let ?s1 = "log (ModelCall req (ctx_context ctx) (is_streaming ctx)) s"
  have r1: "chunk_role ?s1 = MODEL" using assms(2) by (simp add: log_def)
  show ?thesis
  proof (cases "ctx_on_chunk ctx = Some WrapChunks \<and> oc")
    case True
    with assms(1) a have "s' = foldl (\<lambda>t chunk. wrap_chunks True f chunk t) ?s1 chunks"
      by (auto simp: run_model_def Let_def)
    with wrap_chunks_fold [OF r1, of f chunks] True show ?thesis
      by (intro exI [of _ chunks]) (simp add: log_def)
  next
    case False
    with assms(1) a have "s' = ?s1"
      by (cases oc) (auto simp: run_model_def Let_def wrap_chunks_fold_off split: if_splits)
    then show ?thesis
      by (intro exI [of _ "[]"]) (simp add: log_def)
  qed
qed

lemma dispatch_effect:
  assumes "dispatch oc model f mws i req ctx s = (res, s')" and "chunk_role s = MODEL"
  shows "\<exists>cs mc. (\<not> oc \<longrightarrow> cs = []) \<and> length mc \<le> 1 \<and> (\<forall>e\<in>set mc. is_model_call e)
      \<and> (mc = [] \<longrightarrow> cs = [])
      \<and> s' = s\<lparr>prev_chunks := prev_chunks s @ cs,
          trace := trace s @ mc @ model_chunk_events f (message_index s) (prev_chunks s) cs\<rparr>"
  using assms
proof (induction oc model f mws i req ctx s arbitrary: res s' rule: dispatch.induct)
  case (1 oc model f mws i req ctx s)
  show ?case
  proof (cases "mws = [] \<or> i = length mws")
    case True
    with "1.prems" have "run_model oc model f req ctx s = (res, s')"
      by (simp add: dispatch.simps [of oc model f mws i])
    from run_model_effect [OF this "1.prems"(2)] obtain cs where
      "(\<not> oc \<longrightarrow> cs = [])" and "s' = s\<lparr>prev_chunks := prev_chunks s @ cs,
        trace := trace s @ ModelCall req (ctx_context ctx) (is_streaming ctx)
                 # model_chunk_events f (message_index s) (prev_chunks s) cs\<rparr>"
      by blast
    then show ?thesis
      by (intro exI [of _ cs] exI [of _ "[ModelCall req (ctx_context ctx) (is_streaming ctx)]"]) simp
  next
    case False
    note nt = this
    show ?thesis
    proof (cases "length mws < i")
      case True
      with nt "1.prems" have "s' = s"
        by (simp add: dispatch.simps [of oc model f mws i])
      then show ?thesis
        by (intro exI [of _ "[]"]) simp
    next
      case False
      note ni = this
      show ?thesis
      proof (cases "(mws ! i) req ctx")
        case (Respond r)
        with nt ni "1.prems" have "s' = s"
          by (simp add: dispatch.simps [of oc model f mws i])
        then show ?thesis
          by (intro exI [of _ "[]"]) simp
      next
        case (CallNext mreq mctx after)
        let ?req = "case mreq of Some q \<Rightarrow> q | None \<Rightarrow> req"
        let ?ctx = "case mctx of Some c \<Rightarrow> c | None \<Rightarrow> ctx"
        obtain r s1 where d: "dispatch oc model f mws (i + 1) ?req ?ctx s = (r, s1)"
          by (cases "dispatch oc model f mws (i + 1) ?req ?ctx s")
        with nt ni CallNext "1.prems" have "s' = s1"
          by (simp add: dispatch.simps [of oc model f mws i])
        with "1.IH" [OF nt ni CallNext d "1.prems"(2)] show ?thesis
          by simp
      qed
    qed
  qed
qed

lemma run_tool_requests_effect:
  "run_tool_requests E d trs parts s = (res, s')
   \<Longrightarrow> \<exists>k\<le>length trs. s' = s\<lparr>trace := trace s @ map ToolRun (take k trs)\<rparr>"
proof (induction trs arbitrary: parts s)
  case Nil
  then show ?case by auto
next
  case (Cons p ps)
  show ?case
  proof (cases "d (tq_name p)")
    case None
    with Cons.prems show ?thesis by (intro exI [of _ 0]) auto
  next
    case (Some t)
    show ?thesis
    proof (cases t)
      case None
      with Some Cons.prems show ?thesis by (intro exI [of _ 0]) auto
    next
      case tool: (Some tool)
      show ?thesis
      proof (cases "act_arun_raw tool (trace s) (tq_input p)")
        case (Inl e)
        with Some tool Cons.prems show ?thesis
          by (intro exI [of _ 1]) (auto simp: log_def)
      next
        case (Inr out)
        with Some tool Cons.prems obtain parts' where
          "run_tool_requests E d ps parts' (log (ToolRun p) s) = (res, s')"
          by auto
        from Cons.IH [OF this] obtain k where "k \<le> length ps"
          "s' = log (ToolRun p) s\<lparr>trace := trace (log (ToolRun p) s) @ map ToolRun (take k ps)\<rparr>"
          by blast
        then show ?thesis
          by (intro exI [of _ "Suc k"]) (simp add: log_def)
      qed
    qed
  qed
qed

lemma resolve_tool_requests_effect:
  assumes "resolve_tool_requests E registry r m s = (res, s')"
  shows "\<exists>runs. s' = s\<lparr>trace := trace s @ map ToolRun runs\<rparr>"
proof (cases "opt_tools r")
  case None
  with assms have "s' = s" by (simp add: resolve_tool_requests_def)
  then show ?thesis by (intro exI [of _ "[]"]) simp
next
  case (Some names)
  let ?trs = "List.map_filter tool_request (msg_content m)"
  obtain res1 s1 where run: "run_tool_requests E (build_tool_dict registry names) ?trs [] s = (res1, s1)"
    by (cases "run_tool_requests E (build_tool_dict registry names) ?trs [] s")
  with assms Some have "s' = s1"
    by (cases res1) (auto simp: resolve_tool_requests_def)
  with run_tool_requests_effect [OF run] show ?thesis by blast
qed

lemma send_tool_chunk_effect:
  assumes "chunk_role s = MODEL"
  shows "\<exists>w. send_chunk f TOOL c s = s\<lparr>message_index := cw_index w, chunk_role := TOOL,
            prev_chunks := prev_chunks s @ [c], trace := trace s @ [OnChunk TOOL w]\<rparr>
       \<and> cw_index w = message_index s + (if prev_chunks s = [] then 0 else 1)
       \<and> cw_previous_chunks w = prev_chunks s \<and> cw_chunk w = c"
  using assms
  by (intro exI [of _ "fst (make_chunk f TOOL c s)"])
     (simp add: send_chunk_def make_chunk_def log_def Let_def)

lemma conclude_turn_effect:
  assumes ct: "conclude_turn E registry r req f oc ct mr s = (out, s')"
    and role: "chunk_role s = MODEL"
  shows "\<exists>runs tc. trace s' = trace s @ map ToolRun runs @ tc
     \<and> heap s' = heap s \<and> next_addr s' = next_addr s
     \<and> (case out of
          Recurse r' mi' \<Rightarrow>
            (\<exists>tm. r' = r\<lparr>opt_messages := opt_messages r @ [resp_message mr, tm]\<rparr>)
            \<and> ct + 1 \<le> max_iters r
            \<and> (if oc then \<exists>w. tc = [OnChunk TOOL w]
                           \<and> cw_index w = message_index s + (if prev_chunks s = [] then 0 else 1)
                           \<and> cw_previous_chunks w = prev_chunks s \<and> mi' = cw_index w + 1
                else tc = [] \<and> mi' = message_index s + 1)
        | _ \<Rightarrow> tc = [])"
proof -
  let ?resp = "wrap_response mr req f"
  let ?trs = "filter (\<lambda>x. tool_request x \<noteq> None) (msg_content (rw_message ?resp))"
  have triv: "(case out of Recurse r' mi' \<Rightarrow> P r' mi' | _ \<Rightarrow> Q) = Q" if "\<And>r' mi'. out \<noteq> Recurse r' mi'" for P Q
    using that by (cases out) auto
  show ?thesis
  proof (cases "assert_valid E ?resp")
    case (Some e)
    with ct have "s' = s" "out = Raise e" by (simp_all add: conclude_turn_def Let_def)
    then show ?thesis by (intro exI [of _ "[]"]) simp
  next
    case None
    note v = this
    show ?thesis
    proof (cases "opt_return_tool_requests r = Some True \<or> length ?trs = 0")
      case True
      with ct v have "s' = s" "\<And>r' mi'. out \<noteq> Recurse r' mi'"
        by (auto simp: conclude_turn_def Let_def split: if_splits option.splits)
      then show ?thesis by (intro exI [of _ "[]"]) (simp add: triv)
    next
      case False
      note go = this
      show ?thesis
      proof (cases "ct + 1 > max_iters r")
        case True
        with ct v go have "s' = s" "\<And>r' mi'. out \<noteq> Recurse r' mi'"
          by (auto simp: conclude_turn_def Let_def)
        then show ?thesis by (intro exI [of _ "[]"]) (simp add: triv)
      next
        case False
        note le = this
        obtain res s6 where rt: "resolve_tool_requests E registry r (rw_message ?resp) s = (res, s6)"
          by (cases "resolve_tool_requests E registry r (rw_message ?resp) s")
        from resolve_tool_requests_effect [OF rt] obtain runs where
          s6: "s6 = s\<lparr>trace := trace s @ map ToolRun runs\<rparr>" by blast
        show ?thesis
        proof (cases res)
          case (Inl e)
          with ct v go le rt have "s' = s6" "out = Raise e"
            by (auto simp: conclude_turn_def Let_def)
          with s6 show ?thesis by (intro exI [of _ runs] exI [of _ "[]"]) simp
        next
          case (Inr triple)
          then obtain rv tm pre where res: "res = Inr (rv, tm, pre)" by (cases triple) auto
          from resolve_tool_requests_Inr [OF rt [unfolded res]]
          have rv: "rv = None" "pre = None" by simp_all
          let ?c = "\<lparr>gc_role = Some (msg_role tm), gc_content = msg_content tm\<rparr>"
          let ?r' = "r\<lparr>opt_messages := opt_messages r @ [rw_message ?resp, tm]\<rparr>"
          show ?thesis
          proof (cases oc)
            case True
            from role s6 have "chunk_role s6 = MODEL" by simp
            from send_tool_chunk_effect [OF this, of f ?c] obtain w where
              w: "send_chunk f TOOL ?c s6 = s6\<lparr>message_index := cw_index w, chunk_role := TOOL,
                   prev_chunks := prev_chunks s6 @ [?c], trace := trace s6 @ [OnChunk TOOL w]\<rparr>"
              "cw_index w = message_index s6 + (if prev_chunks s6 = [] then 0 else 1)"
              "cw_previous_chunks w = prev_chunks s6"
              by blast
            from ct v go le rt res rv True
            have o: "out = Recurse ?r' (message_index (send_chunk f TOOL ?c s6) + 1)"
              and s': "s' = send_chunk f TOOL ?c s6"
              by (auto simp: conclude_turn_def Let_def apply_transfer_preamble_def)
            show ?thesis
              using le True w s6
              by (intro exI [of _ runs] exI [of _ "[OnChunk TOOL w]"])
                 (auto simp: o s' wrap_response_def)
          next
            case False
            from ct v go le rt res rv False
            have o: "out = Recurse ?r' (message_index s6 + 1)" and s': "s' = s6"
              by (auto simp: conclude_turn_def Let_def apply_transfer_preamble_def)
            show ?thesis
              using le False s6
              by (intro exI [of _ runs] exI [of _ "[]"])
                 (auto simp: o s' wrap_response_def)
          qed
        qed
      qed
    qed
  qed
qed

lemma effective_middleware_effect:
  assumes "effective_middleware E r model mw s = (a, s3)"
  shows "heap s3 a = turn_chain E r model mw s
     \<and> (\<forall>b<next_addr s. heap s3 b = heap_after E r model mw s b)
     \<and> next_addr s \<le> next_addr s3
     \<and> trace s3 = trace s \<and> message_index s3 = message_index s
     \<and> chunk_role s3 = chunk_role s \<and> prev_chunks s3 = prev_chunks s"
proof (cases mw)
  case None
  with assms show ?thesis
    by (auto simp: effective_middleware_def new_list_def list_append_def Let_def
        turn_chain_def heap_after_def split: if_splits)
next
  case (Some a0)
  show ?thesis
  proof (cases "heap s a0 = []")
    case True
    with assms Some show ?thesis
      by (auto simp: effective_middleware_def new_list_def list_append_def Let_def
          turn_chain_def heap_after_def split: if_splits)
  next
    case False
    with assms Some show ?thesis
      by (auto simp: effective_middleware_def list_append_def Let_def
          turn_chain_def heap_after_def split: if_splits)
  qed
qed

lemma dispatch_turn_effect:
  assumes "dispatch_turn E r model tools f oc mi mw cx s = (res, s5)"
  shows "\<exists>cs mc. trace s5 = trace s @ Dispatched (turn_chain E r model mw s) cx # mc
                     @ model_chunk_events f mi [] cs
     \<and> length mc \<le> 1 \<and> (\<forall>e\<in>set mc. is_model_call e) \<and> (mc = [] \<longrightarrow> cs = [])
     \<and> (\<not> oc \<longrightarrow> cs = [])
     \<and> message_index s5 = mi \<and> chunk_role s5 = MODEL \<and> prev_chunks s5 = cs
     \<and> (\<forall>b<next_addr s. heap s5 b = heap_after E r model mw s b)
     \<and> next_addr s \<le> next_addr s5"
proof -
  let ?s1 = "s\<lparr>message_index := mi, chunk_role := MODEL, prev_chunks := []\<rparr>"
  obtain a s3 where em: "effective_middleware E r model mw ?s1 = (a, s3)"
    by (cases "effective_middleware E r model mw ?s1")
  from effective_middleware_effect [OF em]
  have h: "heap s3 a = turn_chain E r model mw ?s1"
    and fr: "\<forall>b<next_addr ?s1. heap s3 b = heap_after E r model mw ?s1 b"
    and na: "next_addr ?s1 \<le> next_addr s3"
    and same: "trace s3 = trace ?s1" "message_index s3 = message_index ?s1"
      "chunk_role s3 = chunk_role ?s1" "prev_chunks s3 = prev_chunks ?s1"
    by blast+
  have tc: "turn_chain E r model mw ?s1 = turn_chain E r model mw s"
    by (simp add: turn_chain_def split: option.split)
  have ha: "heap_after E r model mw ?s1 = heap_after E r model mw s"
    by (simp add: heap_after_def fun_eq_iff)
  let ?s4 = "log (Dispatched (heap s3 a) cx) s3"
  from assms em
  have d: "dispatch oc model f (heap s3 a) 0 (action_to_generate_request r tools model)
      \<lparr>ctx_on_chunk = (if oc then Some WrapChunks else None), ctx_context = cx\<rparr> ?s4 = (res, s5)"
    by (simp add: dispatch_turn_def Let_def)
  have "chunk_role ?s4 = MODEL" using same by (simp add: log_def)
  from dispatch_effect [OF d this] obtain cs mc where
    p: "\<not> oc \<longrightarrow> cs = []" "length mc \<le> 1" "\<forall>e\<in>set mc. is_model_call e" "mc = [] \<longrightarrow> cs = []"
    and s5: "s5 = ?s4\<lparr>prev_chunks := prev_chunks ?s4 @ cs,
          trace := trace ?s4 @ mc @ model_chunk_events f (message_index ?s4) (prev_chunks ?s4) cs\<rparr>"
    by blast
  show ?thesis
    using p h fr na same
    by (intro exI [of _ cs] exI [of _ mc]) (simp add: s5 log_def tc ha)
qed

lemma resolve_parameters_format:
  assumes "resolve_parameters registry r = Inr (model, tools, fd)"
  shows "\<exists>r1 f. apply_format E r fd = Inr (r1, f)"
proof (cases fd)
  case None
  then show ?thesis by (simp add: apply_format_def)
next
  case (Some d)
  with assms have "opt_output r \<noteq> None"
    by (auto simp: resolve_parameters_def Let_def split: option.splits if_splits sum.splits)
  with Some show ?thesis
    by (auto simp: apply_format_def Let_def)
qed

lemma generate_turn_failed:
  assumes "generate_turn E registry r oc mi ct mw cx s = (out, s')"
    and "\<forall>model tools fd. resolve_parameters registry r \<noteq> Inr (model, tools, fd)"
  shows "s' = s \<and> (\<exists>e. out = Raise e)"
proof (cases "resolve_parameters registry r")
  case (Inl e)
  with assms(1) show ?thesis by (auto simp: generate_turn_def)
next
  case (Inr t)
  with assms(2) show ?thesis by (cases t) auto
qed

lemma generate_turn_effect:
  assumes gt: "generate_turn E registry r oc mi ct mw cx s = (out, s')"
    and rp: "resolve_parameters registry r = Inr (model, tools, fd)"
  shows "\<exists>r1 f cs mc runs tc.
       apply_format E r fd = Inr (r1, f)
     \<and> trace s' = trace s @ Dispatched (turn_chain E r model mw s) cx # mc
                     @ model_chunk_events f mi [] cs @ map ToolRun runs @ tc
     \<and> length mc \<le> 1 \<and> (\<forall>e\<in>set mc. is_model_call e) \<and> (mc = [] \<longrightarrow> cs = [])
     \<and> (\<not> oc \<longrightarrow> cs = [])
     \<and> (\<forall>b<next_addr s. heap s' b = heap_after E r model mw s b)
     \<and> next_addr s \<le> next_addr s'
     \<and> (case out of
          Recurse r' mi' \<Rightarrow>
            opt_model r' = opt_model r \<and> opt_docs r' = opt_docs r
            \<and> max_iters r' = max_iters r \<and> ct + 1 \<le> max_iters r
            \<and> (if oc then \<exists>w. tc = [OnChunk TOOL w]
                           \<and> cw_index w = mi + (if cs = [] then 0 else 1)
                           \<and> cw_previous_chunks w = cs \<and> mi' = cw_index w + 1
                else tc = [] \<and> mi' = mi + 1)
        | _ \<Rightarrow> tc = [])"
proof -
  from resolve_parameters_format [OF rp] obtain r1 f where af: "apply_format E r fd = Inr (r1, f)"
    by blast
  note keep = apply_format_keeps [OF af]
  have tc: "turn_chain E r1 model mw s = turn_chain E r model mw s"
    using keep by (simp add: turn_chain_def docs_present_def)
  have ha: "heap_after E r1 model mw s = heap_after E r model mw s"
    using keep by (simp add: heap_after_def docs_present_def fun_eq_iff)
  obtain res s5 where dt: "dispatch_turn E r1 model tools f oc mi mw cx s = (res, s5)"
    by (cases "dispatch_turn E r1 model tools f oc mi mw cx s")
  from dispatch_turn_effect [OF dt] obtain cs mc where
    t5: "trace s5 = trace s @ Dispatched (turn_chain E r model mw s) cx # mc
                     @ model_chunk_events f mi [] cs"
    and p: "length mc \<le> 1" "\<forall>e\<in>set mc. is_model_call e" "mc = [] \<longrightarrow> cs = []" "\<not> oc \<longrightarrow> cs = []"
    and st: "message_index s5 = mi" "chunk_role s5 = MODEL" "prev_chunks s5 = cs"
    and hp: "\<forall>b<next_addr s. heap s5 b = heap_after E r model mw s b" "next_addr s \<le> next_addr s5"
    unfolding tc ha by blast
  show ?thesis
  proof (cases res)
    case (Inl e)
    with gt rp af dt have "out = Raise e" "s' = s5"
      by (simp_all add: generate_turn_def)
    with af t5 p hp show ?thesis
      by (intro exI [of _ r1] exI [of _ f] exI [of _ cs] exI [of _ mc] exI [of _ "[]"]) simp
  next
    case (Inr mr)
    with gt rp af dt
    have c: "conclude_turn E registry r1 (action_to_generate_request r1 tools model) f oc ct mr s5
        = (out, s')"
      by (simp add: generate_turn_def)
    from conclude_turn_effect [OF c st(2)] obtain runs tc where
      t': "trace s' = trace s5 @ map ToolRun runs @ tc"
      and h': "heap s' = heap s5" "next_addr s' = next_addr s5"
      and o: "(case out of
          Recurse r' mi' \<Rightarrow>
            (\<exists>tm. r' = r1\<lparr>opt_messages := opt_messages r1 @ [resp_message mr, tm]\<rparr>)
            \<and> ct + 1 \<le> max_iters r1
            \<and> (if oc then \<exists>w. tc = [OnChunk TOOL w]
                           \<and> cw_index w = message_index s5 + (if prev_chunks s5 = [] then 0 else 1)
                           \<and> cw_previous_chunks w = prev_chunks s5 \<and> mi' = cw_index w + 1
                else tc = [] \<and> mi' = message_index s5 + 1)
        | _ \<Rightarrow> tc = [])"
      by blast
    have o': "(case out of
          Recurse r' mi' \<Rightarrow>
            opt_model r' = opt_model r \<and> opt_docs r' = opt_docs r
            \<and> max_iters r' = max_iters r \<and> ct + 1 \<le> max_iters r
            \<and> (if oc then \<exists>w. tc = [OnChunk TOOL w]
                           \<and> cw_index w = mi + (if cs = [] then 0 else 1)
                           \<and> cw_previous_chunks w = cs \<and> mi' = cw_index w + 1
                else tc = [] \<and> mi' = mi + 1)
        | _ \<Rightarrow> tc = [])"
    proof (cases out)
      case (Recurse r' mi')
      with o st keep show ?thesis by (auto simp: max_iters_def)
    qed (use o in simp_all)
    from af t5 t' p hp h' o' show ?thesis
      by (intro exI [of _ r1] exI [of _ f] exI [of _ cs] exI [of _ mc] exI [of _ runs]
            exI [of _ tc]) simp
  qed
qed

lemma generate_action_unfold:
  assumes "generate_turn E registry r oc mi ct mw cx s = (out, s1)"
  shows "generate_action E registry r oc mi ct mw cx s =
     (case out of Return response \<Rightarrow> (Inr response, s1) | Raise e \<Rightarrow> (Inl e, s1)
      | Recurse nr ni \<Rightarrow> generate_action E registry nr oc ni (ct + 1) None None s1)"
  using assms by (subst generate_action.simps) (simp split: turn_outcome.split)

subsection \<open>Reading a log that is given in pieces\<close>

lemma map_filter_append:
  "List.map_filter g (xs @ ys) = List.map_filter g xs @ List.map_filter g ys"
  by (simp add: List.map_filter_def)

lemma model_calls_simps [simp]:
  "model_calls [] = 0"
  "model_calls (xs @ ys) = model_calls xs + model_calls ys"
  "model_calls (Dispatched ch c # xs) = model_calls xs"
  "model_calls (OnChunk ro w # xs) = model_calls xs"
  "model_calls (ToolRun t # xs) = model_calls xs"
  "model_calls (ModelCall q c st # xs) = Suc (model_calls xs)"
  "model_calls (map ToolRun runs) = 0"
  "model_calls (model_chunk_events f mi pre cs) = 0"
proof -
  show "model_calls (map ToolRun runs) = 0"
    by (induction runs) (simp_all add: model_calls_def)
  show "model_calls (model_chunk_events f mi pre cs) = 0"
    by (induction cs arbitrary: pre) (simp_all add: model_calls_def)
qed (simp_all add: model_calls_def)

lemma model_calls_all:
  "\<forall>e\<in>set mc. is_model_call e \<Longrightarrow> model_calls mc = length mc"
  by (simp add: model_calls_def)

lemma dispatches_simps [simp]:
  "dispatches [] = []"
  "dispatches (xs @ ys) = dispatches xs @ dispatches ys"
  "dispatches (Dispatched ch c # xs) = (ch, c) # dispatches xs"
  "dispatches (OnChunk ro w # xs) = dispatches xs"
  "dispatches (ToolRun t # xs) = dispatches xs"
  "dispatches (ModelCall q c st # xs) = dispatches xs"
  "dispatches (map ToolRun runs) = []"
  "dispatches (model_chunk_events f mi pre cs) = []"
proof -
  show "dispatches (map ToolRun runs) = []"
    by (induction runs) (simp_all add: dispatches_def List.map_filter_simps)
  show "dispatches (model_chunk_events f mi pre cs) = []"
    by (induction cs arbitrary: pre) (simp_all add: dispatches_def List.map_filter_simps)
qed (simp_all add: dispatches_def List.map_filter_simps map_filter_append)

lemma dispatches_model_calls:
  "\<forall>e\<in>set mc. is_model_call e \<Longrightarrow> dispatches mc = []"
proof (induction mc)
  case (Cons e es)
  then show ?case by (cases e) simp_all
qed simp

lemma chunk_log_simps [simp]:
  "chunk_log [] = []"
  "chunk_log (xs @ ys) = chunk_log xs @ chunk_log ys"
  "chunk_log (Dispatched ch c # xs) = chunk_log xs"
  "chunk_log (OnChunk ro w # xs) = (ro, cw_index w) # chunk_log xs"
  "chunk_log (ToolRun t # xs) = chunk_log xs"
  "chunk_log (ModelCall q c st # xs) = chunk_log xs"
  "chunk_log (map ToolRun runs) = []"
  "chunk_log (model_chunk_events f mi pre cs) = map (\<lambda>c. (MODEL, mi)) cs"
proof -
  show "chunk_log (map ToolRun runs) = []"
    by (induction runs) (simp_all add: chunk_log_def List.map_filter_simps)
  show "chunk_log (model_chunk_events f mi pre cs) = map (\<lambda>c. (MODEL, mi)) cs"
    by (induction cs arbitrary: pre) (simp_all add: chunk_log_def List.map_filter_simps)
qed (simp_all add: chunk_log_def List.map_filter_simps map_filter_append)

lemma chunk_log_model_calls:
  "\<forall>e\<in>set mc. is_model_call e \<Longrightarrow> chunk_log mc = []"
proof (induction mc)
  case (Cons e es)
  then show ?case by (cases e) simp_all
qed simp

lemma wrappers_simps [simp]:
  "wrappers [] = []"
  "wrappers (xs @ ys) = wrappers xs @ wrappers ys"
  "wrappers (OnChunk ro w # xs) = w # wrappers xs"
  "wrappers (ToolRun t # xs) = wrappers xs"
  "wrappers (ModelCall q c st # xs) = wrappers xs"
  "wrappers (map ToolRun runs) = []"
proof -
  show "wrappers (map ToolRun runs) = []"
    by (induction runs) (simp_all add: wrappers_def List.map_filter_simps)
qed (simp_all add: wrappers_def List.map_filter_simps map_filter_append)

lemma wrappers_model_calls:
  "\<forall>e\<in>set mc. is_model_call e \<Longrightarrow> wrappers mc = []"
proof (induction mc)
  case (Cons e es)
  then show ?case by (cases e) simp_all
qed simp

lemma new_events_append [simp]: "trace s' = trace s @ new \<Longrightarrow> new_events s s' = new"
  by (simp add: new_events_def)

text \<open>The definitions a run on concrete collaborators unfolds.\<close>

lemmas eval_defs =
  generate_turn_def dispatch_turn_def conclude_turn_def effective_middleware_def
  resolve_parameters_def apply_format_def action_to_generate_request_def
  resolve_tool_requests_def build_tool_dict_apply resolve_tool_def
  run_model_def wrap_chunks_def send_chunk_def make_chunk_def log_def
  new_list_def list_append_def wrap_response_def docs_present_def supports_context_def
  max_iters_def DEFAULT_MAX_TURNS_def apply_transfer_preamble_def is_streaming_def
  registry_of_def request_of_def scripted_model_def tool_action_def call_tool_def
  E0_def s0_def aug0_def text_chunk_def
  List.map_filter_simps Let_def model_calls_def dispatches_def chunk_log_def
  chunk_snapshots_def new_events_def
  ok_tool_def always_tool_def streaming_model_def quiet_second_turn_def tool_then_text_def
  text_only_def tag_middleware_def docs_request_def caller_state_def model_requests_def

subsection \<open>The turn bound (C1)\<close>

lemma generate_action_bound:
  "generate_action E registry r oc mi ct mw cx s = (res, s')
   \<Longrightarrow> \<exists>new. trace s' = trace s @ new
         \<and> model_calls new \<le> nat (max_iters r - ct) + 1
         \<and> length (dispatches new) \<le> nat (max_iters r - ct) + 1"
proof (induction E registry r oc mi ct mw cx s arbitrary: res s' rule: generate_action.induct)
  case (1 E registry r oc mi ct mw cx s)
  obtain out s1 where gt: "generate_turn E registry r oc mi ct mw cx s = (out, s1)"
    by (cases "generate_turn E registry r oc mi ct mw cx s")
  note unf = generate_action_unfold [OF gt]
  show ?case
  proof (cases "\<exists>model tools fd. resolve_parameters registry r = Inr (model, tools, fd)")
    case False
    with generate_turn_failed [OF gt] have "s1 = s" "\<exists>e. out = Raise e" by auto
    with unf "1.prems" have "s' = s" by auto
    then show ?thesis by simp
  next
    case True
    then obtain model tools fd where rp: "resolve_parameters registry r = Inr (model, tools, fd)"
      by blast
    from generate_turn_effect [OF gt rp] obtain f cs mc runs tc where
      t1: "trace s1 = trace s @ Dispatched (turn_chain E r model mw s) cx # mc
                     @ model_chunk_events f mi [] cs @ map ToolRun runs @ tc"
      and mc: "length mc \<le> 1" "\<forall>e\<in>set mc. is_model_call e"
      and o: "(case out of
          Recurse r' mi' \<Rightarrow>
            opt_model r' = opt_model r \<and> opt_docs r' = opt_docs r
            \<and> max_iters r' = max_iters r \<and> ct + 1 \<le> max_iters r
            \<and> (if oc then \<exists>w. tc = [OnChunk TOOL w]
                           \<and> cw_index w = mi + (if cs = [] then 0 else 1)
                           \<and> cw_previous_chunks w = cs \<and> mi' = cw_index w + 1
                else tc = [] \<and> mi' = mi + 1)
        | _ \<Rightarrow> tc = [])"
      by blast
    from o have tc: "model_calls tc = 0" "dispatches tc = []"
      by (cases out; cases oc; auto)+
    let ?turn = "Dispatched (turn_chain E r model mw s) cx # mc
                     @ model_chunk_events f mi [] cs @ map ToolRun runs @ tc"
    have turn: "model_calls ?turn \<le> 1" "length (dispatches ?turn) = 1"
      using mc tc by (simp_all add: model_calls_all dispatches_model_calls)
    show ?thesis
    proof (cases out)
      case (Recurse r' mi')
      with unf "1.prems"
      have ga: "generate_action E registry r' oc mi' (ct + 1) None None s1 = (res, s')" by simp
      from "1.IH" [OF gt [symmetric] Recurse ga] obtain new' where
        n: "trace s' = trace s1 @ new'"
        "model_calls new' \<le> nat (max_iters r' - (ct + 1)) + 1"
        "length (dispatches new') \<le> nat (max_iters r' - (ct + 1)) + 1"
        by blast
      from o Recurse have m: "max_iters r' = max_iters r" "ct + 1 \<le> max_iters r" by simp_all
      have "trace s' = trace s @ (?turn @ new')" using n(1) t1 by simp
      moreover have "model_calls (?turn @ new') \<le> nat (max_iters r - ct) + 1"
        using turn(1) n(2) m unfolding model_calls_simps(2) by linarith
      moreover have "length (dispatches (?turn @ new')) \<le> nat (max_iters r - ct) + 1"
        using turn(2) n(3) m unfolding dispatches_simps(2) length_append by linarith
      ultimately show ?thesis by blast
    next
      case (Return response)
      with unf "1.prems" have "s' = s1" by simp
      with t1 turn show ?thesis by (intro exI [of _ ?turn]) simp
    next
      case (Raise e)
      with unf "1.prems" have "s' = s1" by simp
      with t1 turn show ?thesis by (intro exI [of _ ?turn]) simp
    qed
  qed
qed

lemma generate_action_extends:
  "\<exists>new. trace (snd (generate_action E registry r oc mi ct mw cx s)) = trace s @ new"
proof -
  obtain res s' where "generate_action E registry r oc mi ct mw cx s = (res, s')"
    by (cases "generate_action E registry r oc mi ct mw cx s")
  with generate_action_bound [OF this] show ?thesis by auto
qed

lemma generate_action_guard:
  assumes rp: "resolve_parameters registry r = Inr (model, tools, fd)"
    and af: "apply_format E r fd = Inr (r1, f)"
    and dt: "dispatch_turn E r1 model tools f oc mi mw cx s = (Inr mr, s5)"
    and w: "response = wrap_response mr (action_to_generate_request r1 tools model) f"
    and v: "assert_valid E response = None"
    and tr: "filter (\<lambda>x. tool_request x \<noteq> None) (msg_content (resp_message mr)) \<noteq> []"
    and nr: "opt_return_tool_requests r \<noteq> Some True"
  shows "generate_action E registry r oc mi ct mw cx s =
     (if max_iters r < ct + 1
      then (Inl (GenerationResponseError response
                   (''Exceeded maximum tool call iterations ('' @ str_int (max_iters r) @ '')'')
                   ''ABORTED'' (action_to_generate_request r1 tools model)), s5)
      else (case resolve_tool_requests E registry r1 (resp_message mr) s5 of
              (Inl e, s6) \<Rightarrow> (Inl e, s6)
            | (Inr (rv, tool_msg, pre), s6) \<Rightarrow>
                generate_action E registry
                  (r1\<lparr>opt_messages := opt_messages r1 @ [resp_message mr, tool_msg]\<rparr>)
                  oc
                  (message_index
                     (if oc then send_chunk f TOOL
                        \<lparr>gc_role = Some (msg_role tool_msg), gc_content = msg_content tool_msg\<rparr> s6
                      else s6) + 1)
                  (ct + 1) None None
                  (if oc then send_chunk f TOOL
                     \<lparr>gc_role = Some (msg_role tool_msg), gc_content = msg_content tool_msg\<rparr> s6
                   else s6)))"
proof -
  let ?req = "action_to_generate_request r1 tools model"
  note keep = apply_format_keeps [OF af]
  have mi: "max_iters r1 = max_iters r" and rt: "opt_return_tool_requests r1 \<noteq> Some True"
    using keep nr by (simp_all add: max_iters_def)
  have gt: "generate_turn E registry r oc mi ct mw cx s
      = conclude_turn E registry r1 ?req f oc ct mr s5"
    using rp af dt by (simp add: generate_turn_def)
  have msg: "rw_message response = resp_message mr"
    by (simp add: w wrap_response_def)
  show ?thesis
  proof (cases "max_iters r < ct + 1")
    case True
    with v tr rt mi msg
    have "conclude_turn E registry r1 ?req f oc ct mr s5
      = (Raise (GenerationResponseError response
                   (''Exceeded maximum tool call iterations ('' @ str_int (max_iters r) @ '')'')
                   ''ABORTED'' ?req), s5)"
      by (simp add: conclude_turn_def w [symmetric] Let_def)
    with gt True show ?thesis
      by (simp add: generate_action_unfold)
  next
    case False
    obtain res s6 where rs: "resolve_tool_requests E registry r1 (resp_message mr) s5 = (res, s6)"
      by (cases "resolve_tool_requests E registry r1 (resp_message mr) s5")
    show ?thesis
    proof (cases res)
      case (Inl e)
      with v tr rt mi msg False rs
      have "conclude_turn E registry r1 ?req f oc ct mr s5 = (Raise e, s6)"
        by (simp add: conclude_turn_def w [symmetric] Let_def)
      with gt False rs Inl show ?thesis
        by (simp add: generate_action_unfold)
    next
      case (Inr triple)
      then obtain rv tm pre where res: "res = Inr (rv, tm, pre)" by (cases triple) auto
      from resolve_tool_requests_Inr [OF rs [unfolded res]]
      have none: "rv = None" "pre = None" by simp_all
      let ?s7 = "if oc then send_chunk f TOOL
                     \<lparr>gc_role = Some (msg_role tm), gc_content = msg_content tm\<rparr> s6 else s6"
      from v tr rt mi msg False rs res none
      have "conclude_turn E registry r1 ?req f oc ct mr s5
        = (Recurse (r1\<lparr>opt_messages := opt_messages r1 @ [resp_message mr, tm]\<rparr>)
             (message_index ?s7 + 1), ?s7)"
        by (simp add: conclude_turn_def w [symmetric] Let_def apply_transfer_preamble_def)
      with gt False rs res show ?thesis
        by (simp add: generate_action_unfold)
    qed
  qed
qed

text \<open>
  C1, as the code has it. With \<open>N\<close> the effective \<^verbatim>\<open>max_turns\<close> (\<open>max_iters\<close>: the request's
  value when it is set and not zero, else 5), a call of \<^verbatim>\<open>generate_action\<close> at turn \<open>ct\<close>
  (0 for the caller) makes at most \<open>N - ct + 1\<close> model invocations, one per turn at most,
  and at most one when \<open>N \<le> ct\<close>. And when the reply of a turn has tool requests
  (the response being valid and \<^verbatim>\<open>return_tool_requests\<close> not set), the call raises the
  error with status \<^verbatim>\<open>ABORTED\<close>, with the response and the request, exactly when
  \<open>ct + 1 > N\<close>; otherwise it resolves the tool requests and, unless that fails, goes on
  as the call for turn \<open>ct + 1\<close> does. So the bound is on the rounds of tool calls: with
  \<open>N = 1\<close> the first reply is followed by the tools and a second model invocation.
\<close>

theorem generate_action_turn_bound:
  "model_calls (new_events s (snd (generate_action E registry r oc mi ct mw cx s)))
     \<le> nat (max_iters r - ct) + 1
   \<and> length (dispatches (new_events s (snd (generate_action E registry r oc mi ct mw cx s))))
     \<le> nat (max_iters r - ct) + 1
   \<and> (resolve_parameters registry r = Inr (model, tools, fd)
        \<and> apply_format E r fd = Inr (r1, f)
        \<and> dispatch_turn E r1 model tools f oc mi mw cx s = (Inr mr, s5)
        \<and> assert_valid E (wrap_response mr (action_to_generate_request r1 tools model) f) = None
        \<and> filter (\<lambda>x. tool_request x \<noteq> None) (msg_content (resp_message mr)) \<noteq> []
        \<and> opt_return_tool_requests r \<noteq> Some True
      \<longrightarrow> generate_action E registry r oc mi ct mw cx s =
           (if max_iters r < ct + 1
            then (Inl (GenerationResponseError
                         (wrap_response mr (action_to_generate_request r1 tools model) f)
                         (''Exceeded maximum tool call iterations ('' @ str_int (max_iters r) @ '')'')
                         ''ABORTED'' (action_to_generate_request r1 tools model)), s5)
            else (case resolve_tool_requests E registry r1 (resp_message mr) s5 of
                    (Inl e, s6) \<Rightarrow> (Inl e, s6)
                  | (Inr (rv, tool_msg, pre), s6) \<Rightarrow>
                      generate_action E registry
                        (r1\<lparr>opt_messages := opt_messages r1 @ [resp_message mr, tool_msg]\<rparr>)
                        oc
                        (message_index
                           (if oc then send_chunk f TOOL
                              \<lparr>gc_role = Some (msg_role tool_msg), gc_content = msg_content tool_msg\<rparr> s6
                            else s6) + 1)
                        (ct + 1) None None
                        (if oc then send_chunk f TOOL
                           \<lparr>gc_role = Some (msg_role tool_msg), gc_content = msg_content tool_msg\<rparr> s6
                         else s6))))"
proof -
  obtain res s' where ga: "generate_action E registry r oc mi ct mw cx s = (res, s')"
    by (cases "generate_action E registry r oc mi ct mw cx s")
  from generate_action_bound [OF ga] obtain new where
    "trace s' = trace s @ new" "model_calls new \<le> nat (max_iters r - ct) + 1"
    "length (dispatches new) \<le> nat (max_iters r - ct) + 1"
    by blast
  then have "model_calls (new_events s (snd (generate_action E registry r oc mi ct mw cx s)))
     \<le> nat (max_iters r - ct) + 1"
    "length (dispatches (new_events s (snd (generate_action E registry r oc mi ct mw cx s))))
     \<le> nat (max_iters r - ct) + 1"
    by (simp_all add: ga)
  with generate_action_guard [where registry = registry and r = r and model = model
      and tools = tools and fd = fd and E = E and ?r1.0 = r1 and f = f and oc = oc and mi = mi
      and mw = mw and cx = cx and s = s and mr = mr and ?s5.0 = s5 and ct = ct, OF _ _ _ refl]
  show ?thesis by blast
qed

lemma tool_run_first_turn:
  "dispatch_turn E0 (request_of (Some [''t'']) (Some 1)) always_tool [ok_tool] None False 0 None None s0
   = (Inr \<lparr>resp_message = \<lparr>msg_role = MODEL, msg_content = [call_tool ''t'']\<rparr>,
           resp_finish_reason = None, resp_finish_message = None\<rparr>,
      s0\<lparr>message_index := 0, chunk_role := MODEL, prev_chunks := [],
         trace := [Dispatched [] None,
                   ModelCall (action_to_generate_request (request_of (Some [''t'']) (Some 1))
                                [ok_tool] always_tool) None False],
         heap := (heap s0)(0 := []), next_addr := 1\<rparr>)"
  by (simp add: dispatch.simps dispatch_turn_def effective_middleware_def new_list_def
      list_append_def docs_present_def request_of_def run_model_def log_def Let_def
      always_tool_def scripted_model_def model_calls_def s0_def is_streaming_def)

theorem generate_action_turn_bound_witness:
  "max_iters (request_of (Some [''t'']) (Some 1)) = 1
   \<and> model_calls (new_events s0 (snd (generate_action E0 (registry_of always_tool [ok_tool])
        (request_of (Some [''t'']) (Some 1)) False 0 0 None None s0))) \<le> 2
   \<and> generate_action E0 (registry_of always_tool [ok_tool])
        (request_of (Some [''t'']) (Some 1)) False 0 0 None None s0
      = generate_action E0 (registry_of always_tool [ok_tool])
          ((request_of (Some [''t'']) (Some 1))\<lparr>opt_messages :=
             [\<lparr>msg_role = USER, msg_content = [TextPart ''hi'']\<rparr>,
              \<lparr>msg_role = MODEL, msg_content = [call_tool ''t'']\<rparr>,
              \<lparr>msg_role = TOOL, msg_content =
                 [ToolResponsePart \<lparr>tp_name = ''t'', tp_ref = None, tp_output = ''ok''\<rparr>]\<rparr>]\<rparr>)
          False 1 1 None None
          (s0\<lparr>message_index := 0, chunk_role := MODEL, prev_chunks := [],
             trace := [Dispatched [] None,
                       ModelCall (action_to_generate_request (request_of (Some [''t'']) (Some 1))
                                    [ok_tool] always_tool) None False,
                       ToolRun \<lparr>tq_name = ''t'', tq_ref = None, tq_input = ''[1,2]''\<rparr>],
             heap := (heap s0)(0 := []), next_addr := 1\<rparr>)"
proof -
  let ?r = "request_of (Some [''t'']) (Some 1)"
  let ?reg = "registry_of always_tool [ok_tool]"
  let ?mr = "\<lparr>resp_message = \<lparr>msg_role = MODEL, msg_content = [call_tool ''t'']\<rparr>,
           resp_finish_reason = None, resp_finish_message = None\<rparr>"
  let ?s5 = "s0\<lparr>message_index := 0, chunk_role := MODEL, prev_chunks := [],
         trace := [Dispatched [] None,
                   ModelCall (action_to_generate_request ?r [ok_tool] always_tool) None False],
         heap := (heap s0)(0 := []), next_addr := 1\<rparr>"
  let ?tm = "\<lparr>msg_role = TOOL, msg_content =
                 [ToolResponsePart \<lparr>tp_name = ''t'', tp_ref = None, tp_output = ''ok''\<rparr>]\<rparr>"
  have rp: "resolve_parameters ?reg ?r = Inr (always_tool, [ok_tool], None)"
    by (simp add: resolve_parameters_def registry_of_def request_of_def ok_tool_def
        tool_action_def Let_def)
  have af: "apply_format E0 ?r None = Inr (?r, None)"
    by (simp add: apply_format_def)
  have v: "assert_valid E0 (wrap_response ?mr (action_to_generate_request ?r [ok_tool] always_tool) None)
      = None"
    by (simp add: E0_def)
  have tr: "filter (\<lambda>x. tool_request x \<noteq> None) (msg_content (resp_message ?mr)) \<noteq> []"
    by (simp add: call_tool_def)
  have nr: "opt_return_tool_requests ?r \<noteq> Some True"
    by (simp add: request_of_def)
  have mx: "max_iters ?r = 1"
    by (simp add: max_iters_def request_of_def)
  have rt: "resolve_tool_requests E0 ?reg ?r (resp_message ?mr) ?s5
      = (Inr (None, \<lparr>msg_role = TOOL, msg_content =
                 [ToolResponsePart \<lparr>tp_name = ''t'', tp_ref = None, tp_output = ''ok''\<rparr>]\<rparr>, None),
         ?s5\<lparr>trace := trace ?s5 @ [ToolRun \<lparr>tq_name = ''t'', tq_ref = None, tq_input = ''[1,2]''\<rparr>]\<rparr>)"
    by (simp add: resolve_tool_requests_def request_of_def call_tool_def List.map_filter_simps
        build_tool_dict_apply resolve_tool_def registry_of_def ok_tool_def tool_action_def
        log_def E0_def)
  note t = generate_action_turn_bound [where s = s0 and E = E0 and registry = ?reg and r = ?r
      and oc = False and mi = 0 and ct = 0 and mw = None and cx = None and model = always_tool
      and tools = "[ok_tool]" and fd = None and ?r1.0 = ?r and f = None and mr = ?mr
      and ?s5.0 = ?s5]
  from t have b: "model_calls (new_events s0 (snd (generate_action E0 ?reg ?r False 0 0 None None s0)))
      \<le> nat (max_iters ?r - 0) + 1"
    by blast
  from t rp af tool_run_first_turn v tr nr
  have "generate_action E0 ?reg ?r False 0 0 None None s0 =
      (if max_iters ?r < 0 + 1
       then (Inl (GenerationResponseError
                    (wrap_response ?mr (action_to_generate_request ?r [ok_tool] always_tool) None)
                    (''Exceeded maximum tool call iterations ('' @ str_int (max_iters ?r) @ '')'')
                    ''ABORTED'' (action_to_generate_request ?r [ok_tool] always_tool)), ?s5)
       else (case resolve_tool_requests E0 ?reg ?r (resp_message ?mr) ?s5 of
               (Inl e, s6) \<Rightarrow> (Inl e, s6)
             | (Inr (rv, tool_msg, pre), s6) \<Rightarrow>
                 generate_action E0 ?reg
                   (?r\<lparr>opt_messages := opt_messages ?r @ [resp_message ?mr, tool_msg]\<rparr>)
                   False
                   (message_index
                      (if False then send_chunk None TOOL
                         \<lparr>gc_role = Some (msg_role tool_msg), gc_content = msg_content tool_msg\<rparr> s6
                       else s6) + 1)
                   (0 + 1) None None
                   (if False then send_chunk None TOOL
                      \<lparr>gc_role = Some (msg_role tool_msg), gc_content = msg_content tool_msg\<rparr> s6
                    else s6)))"
    by blast
  then have ga0: "generate_action E0 ?reg ?r False 0 0 None None s0
      = generate_action E0 ?reg
          (?r\<lparr>opt_messages := opt_messages ?r @ [resp_message ?mr, ?tm]\<rparr>)
          False 1 1 None None
          (?s5\<lparr>trace := trace ?s5 @ [ToolRun \<lparr>tq_name = ''t'', tq_ref = None, tq_input = ''[1,2]''\<rparr>]\<rparr>)"
    by (simp add: mx rt [simplified])
  have eqr: "?r\<lparr>opt_messages := opt_messages ?r @ [resp_message ?mr, ?tm]\<rparr>
      = ?r\<lparr>opt_messages :=
             [\<lparr>msg_role = USER, msg_content = [TextPart ''hi'']\<rparr>,
              \<lparr>msg_role = MODEL, msg_content = [call_tool ''t'']\<rparr>, ?tm]\<rparr>"
    by (simp add: request_of_def)
  have eqs: "?s5\<lparr>trace := trace ?s5 @ [ToolRun \<lparr>tq_name = ''t'', tq_ref = None, tq_input = ''[1,2]''\<rparr>]\<rparr>
      = s0\<lparr>message_index := 0, chunk_role := MODEL, prev_chunks := [],
             trace := [Dispatched [] None,
                       ModelCall (action_to_generate_request ?r [ok_tool] always_tool) None False,
                       ToolRun \<lparr>tq_name = ''t'', tq_ref = None, tq_input = ''[1,2]''\<rparr>],
             heap := (heap s0)(0 := []), next_addr := 1\<rparr>"
    by simp
  from ga0 have ga: "generate_action E0 ?reg ?r False 0 0 None None s0
      = generate_action E0 ?reg
          (?r\<lparr>opt_messages :=
             [\<lparr>msg_role = USER, msg_content = [TextPart ''hi'']\<rparr>,
              \<lparr>msg_role = MODEL, msg_content = [call_tool ''t'']\<rparr>, ?tm]\<rparr>)
          False 1 1 None None
          (s0\<lparr>message_index := 0, chunk_role := MODEL, prev_chunks := [],
             trace := [Dispatched [] None,
                       ModelCall (action_to_generate_request ?r [ok_tool] always_tool) None False,
                       ToolRun \<lparr>tq_name = ''t'', tq_ref = None, tq_input = ''[1,2]''\<rparr>],
             heap := (heap s0)(0 := []), next_addr := 1\<rparr>)"
    by (simp only: eqr eqs)
  from b mx have c2: "model_calls (new_events s0 (snd (generate_action E0 ?reg ?r False 0 0 None None s0)))
      \<le> 2"
    by simp
  show ?thesis
    by (rule conjI [OF mx conjI [OF c2 ga]])
qed

text \<open>
  The claim as stated fails: with \<^verbatim>\<open>max_turns = 1\<close> and a model that asks for the tool in
  every reply, the tool is run after the first reply, the model is invoked a second time,
  and the error with status \<^verbatim>\<open>ABORTED\<close> comes after the second reply.
\<close>

theorem max_turns_one_counterexample:
  "max_iters (request_of (Some [''t'']) (Some 1)) = 1
   \<and> model_calls (trace (snd (generate_action E0 (registry_of always_tool [ok_tool])
        (request_of (Some [''t'']) (Some 1)) False 0 0 None None s0))) = 2
   \<and> tool_runs (trace (snd (generate_action E0 (registry_of always_tool [ok_tool])
        (request_of (Some [''t'']) (Some 1)) False 0 0 None None s0)))
      = [\<lparr>tq_name = ''t'', tq_ref = None, tq_input = ''[1,2]''\<rparr>]
   \<and> aborted (fst (generate_action E0 (registry_of always_tool [ok_tool])
        (request_of (Some [''t'']) (Some 1)) False 0 0 None None s0))"
  by (simp add: generate_action.simps dispatch.simps eval_defs tool_runs_def)

subsection \<open>Chunk indices (C3)\<close>

lemma index_steps_model: "index_steps_ok (map (\<lambda>c. (MODEL, mi)) cs)"
  unfolding index_steps_ok_def
  by (induction cs rule: induct_list012) (simp_all add: index_step_def)

lemma index_steps_turn:
  "index_steps_ok (map (\<lambda>c. (MODEL, mi)) cs @ [(TOOL, mi + (if cs = [] then 0 else 1))])"
  using index_steps_model [of mi cs]
  unfolding index_steps_ok_def
  by (cases cs rule: rev_cases) (auto simp: successively_append_iff index_step_def)

lemma generate_action_chunk_index:
  "generate_action E registry r oc mi ct mw cx s = (res, s')
   \<Longrightarrow> \<exists>new. trace s' = trace s @ new
         \<and> index_steps_ok (chunk_log new)
         \<and> (chunk_log new \<noteq> [] \<longrightarrow> snd (hd (chunk_log new)) = mi)
         \<and> (\<not> oc \<longrightarrow> chunk_log new = [])"
proof (induction E registry r oc mi ct mw cx s arbitrary: res s' rule: generate_action.induct)
  case (1 E registry r oc mi ct mw cx s)
  obtain out s1 where gt: "generate_turn E registry r oc mi ct mw cx s = (out, s1)"
    by (cases "generate_turn E registry r oc mi ct mw cx s")
  note unf = generate_action_unfold [OF gt]
  show ?case
  proof (cases "\<exists>model tools fd. resolve_parameters registry r = Inr (model, tools, fd)")
    case False
    with generate_turn_failed [OF gt] have "s1 = s" "\<exists>e. out = Raise e" by auto
    with unf "1.prems" have "s' = s" by auto
    then show ?thesis by (simp add: index_steps_ok_def)
  next
    case True
    then obtain model tools fd where rp: "resolve_parameters registry r = Inr (model, tools, fd)"
      by blast
    from generate_turn_effect [OF gt rp] obtain f cs mc runs tc where
      t1: "trace s1 = trace s @ Dispatched (turn_chain E r model mw s) cx # mc
                     @ model_chunk_events f mi [] cs @ map ToolRun runs @ tc"
      and mc: "\<forall>e\<in>set mc. is_model_call e" and off: "\<not> oc \<longrightarrow> cs = []"
      and o: "(case out of
          Recurse r' mi' \<Rightarrow>
            opt_model r' = opt_model r \<and> opt_docs r' = opt_docs r
            \<and> max_iters r' = max_iters r \<and> ct + 1 \<le> max_iters r
            \<and> (if oc then \<exists>w. tc = [OnChunk TOOL w]
                           \<and> cw_index w = mi + (if cs = [] then 0 else 1)
                           \<and> cw_previous_chunks w = cs \<and> mi' = cw_index w + 1
                else tc = [] \<and> mi' = mi + 1)
        | _ \<Rightarrow> tc = [])"
      by blast
    let ?turn = "Dispatched (turn_chain E r model mw s) cx # mc
                     @ model_chunk_events f mi [] cs @ map ToolRun runs @ tc"
    have cl: "chunk_log ?turn = map (\<lambda>c. (MODEL, mi)) cs @ chunk_log tc"
      using mc by (simp add: chunk_log_model_calls)
    show ?thesis
    proof (cases out)
      case (Recurse r' mi')
      with unf "1.prems"
      have ga: "generate_action E registry r' oc mi' (ct + 1) None None s1 = (res, s')" by simp
      from "1.IH" [OF gt [symmetric] Recurse ga] obtain new' where
        n: "trace s' = trace s1 @ new'" "index_steps_ok (chunk_log new')"
        "chunk_log new' \<noteq> [] \<longrightarrow> snd (hd (chunk_log new')) = mi'"
        "\<not> oc \<longrightarrow> chunk_log new' = []"
        by blast
      have tr: "trace s' = trace s @ (?turn @ new')" using n(1) t1 by simp
      show ?thesis
      proof (cases oc)
        case False
        with o Recurse off have "tc = []" "cs = []" by simp_all
        with cl n(4) False have "chunk_log (?turn @ new') = []" by simp
        with tr show ?thesis
          by (intro exI [of _ "?turn @ new'"]) (simp add: index_steps_ok_def)
      next
        case True
        with o Recurse obtain w where w: "tc = [OnChunk TOOL w]"
          "cw_index w = mi + (if cs = [] then 0 else 1)" "mi' = cw_index w + 1"
          by auto
        let ?t = "mi + (if cs = [] then 0 else 1)"
        have cl': "chunk_log (?turn @ new')
            = (map (\<lambda>c. (MODEL, mi)) cs @ [(TOOL, ?t)]) @ chunk_log new'"
          using cl w by simp
        have ok: "index_steps_ok ((map (\<lambda>c. (MODEL, mi)) cs @ [(TOOL, ?t)]) @ chunk_log new')"
          using index_steps_turn [of mi cs] n(2,3) w
          unfolding index_steps_ok_def successively_append_iff [of _ "_ @ [_]"]
          by (auto simp: index_step_def)
        have hd: "snd (hd ((map (\<lambda>c. (MODEL, mi)) cs @ [(TOOL, ?t)]) @ chunk_log new')) = mi"
          by (cases cs) simp_all
        from tr ok hd True show ?thesis
          by (intro exI [of _ "?turn @ new'"]) (simp only: cl' simp_thms)
      qed
    next
      case (Return response)
      with unf "1.prems" have s': "s' = s1" by simp
      from Return o have "tc = []" by simp
      with cl have "chunk_log ?turn = map (\<lambda>c. (MODEL, mi)) cs" by simp
      with t1 s' off show ?thesis
        by (intro exI [of _ ?turn]) (auto simp: index_steps_model hd_map)
    next
      case (Raise e)
      with unf "1.prems" have s': "s' = s1" by simp
      from Raise o have "tc = []" by simp
      with cl have "chunk_log ?turn = map (\<lambda>c. (MODEL, mi)) cs" by simp
      with t1 s' off show ?thesis
        by (intro exI [of _ ?turn]) (auto simp: index_steps_model hd_map)
    qed
  qed
qed

text \<open>
  C3, as the code has it. Over the chunks given to the callback in one exchange, in
  order, the index does not change between two consecutive chunks of role \<^verbatim>\<open>model\<close>, and
  grows by exactly one between any other two consecutive chunks: from \<^verbatim>\<open>model\<close> to
  \<^verbatim>\<open>tool\<close>, from \<^verbatim>\<open>tool\<close> to \<^verbatim>\<open>model\<close>, and also from \<^verbatim>\<open>tool\<close> to \<^verbatim>\<open>tool\<close> (the tool
  messages of two turns, when the model streamed nothing in the later turn). The first
  chunk has the index the call was given.
\<close>

theorem chunk_index_steps:
  "index_steps_ok (chunk_log (new_events s (snd (generate_action E registry r oc mi ct mw cx s))))
   \<and> (chunk_log (new_events s (snd (generate_action E registry r oc mi ct mw cx s))) \<noteq> []
      \<longrightarrow> snd (hd (chunk_log (new_events s
              (snd (generate_action E registry r oc mi ct mw cx s))))) = mi)"
proof -
  obtain res s' where ga: "generate_action E registry r oc mi ct mw cx s = (res, s')"
    by (cases "generate_action E registry r oc mi ct mw cx s")
  from generate_action_chunk_index [OF ga] obtain new where
    "trace s' = trace s @ new" "index_steps_ok (chunk_log new)"
    "chunk_log new \<noteq> [] \<longrightarrow> snd (hd (chunk_log new)) = mi"
    by blast
  then show ?thesis by (simp add: ga)
qed

text \<open>The roles model, model, tool, model of the claim get the indices 0, 0, 1, 2.\<close>

theorem chunk_index_steps_witness:
  "chunk_log (new_events s0 (snd (generate_action E0 (registry_of streaming_model [ok_tool])
        (request_of (Some [''t'']) None) True 0 0 None None s0)))
     = [(MODEL, 0), (MODEL, 0), (TOOL, 1), (MODEL, 2)]
   \<and> index_steps_ok (chunk_log (new_events s0 (snd (generate_action E0
        (registry_of streaming_model [ok_tool])
        (request_of (Some [''t'']) None) True 0 0 None None s0))))"
proof -
  have "chunk_log (new_events s0 (snd (generate_action E0 (registry_of streaming_model [ok_tool])
        (request_of (Some [''t'']) None) True 0 0 None None s0)))
     = [(MODEL, 0), (MODEL, 0), (TOOL, 1), (MODEL, 2)]"
    by (simp add: generate_action.simps dispatch.simps eval_defs)
  with chunk_index_steps [of s0 E0 "registry_of streaming_model [ok_tool]"
      "request_of (Some [''t'']) None" True 0 0 None None]
  show ?thesis by simp
qed

text \<open>
  The claim as stated fails: when the model streams a chunk in the first turn and none in
  the second, the tool chunks of the two turns follow each other, with the same role, and
  the index grows from 1 to 2.
\<close>

theorem tool_chunks_counterexample:
  "chunk_log (trace (snd (generate_action E0 (registry_of quiet_second_turn [ok_tool])
        (request_of (Some [''t'']) None) True 0 0 None None s0)))
     = [(MODEL, 0), (TOOL, 1), (TOOL, 2)]"
  by (simp add: generate_action.simps dispatch.simps eval_defs)

subsection \<open>The context middleware (C5)\<close>

text \<open>
  C5, as the code has it. When the model resolves, the first thing the call does outside
  is to dispatch, with the chain made of the caller's middleware (the list object at the
  address given, nothing without one) followed by the context middleware if and only if
  the request has documents and the model's metadata does not declare context support:
  the context middleware is appended, it is the last before the model.
\<close>

theorem context_middleware_appended:
  assumes "resolve_parameters registry r = Inr (model, tools, fd)"
  shows "\<exists>rest. new_events s (snd (generate_action E registry r oc mi ct mw cx s))
     = Dispatched ((case mw of None \<Rightarrow> [] | Some a \<Rightarrow> heap s a)
                   @ (if docs_present r \<and> \<not> supports_context model
                      then [augment_with_context E] else [])) cx # rest"
proof -
  obtain out s1 where gt: "generate_turn E registry r oc mi ct mw cx s = (out, s1)"
    by (cases "generate_turn E registry r oc mi ct mw cx s")
  from generate_turn_effect [OF gt assms] obtain turn where
    t1: "trace s1 = trace s @ Dispatched (turn_chain E r model mw s) cx # turn"
    by blast
  have "\<exists>new. trace (snd (generate_action E registry r oc mi ct mw cx s)) = trace s1 @ new"
  proof (cases out)
    case (Recurse r' mi')
    with generate_action_unfold [OF gt] generate_action_extends [of E registry r' oc mi' "ct + 1" None None s1]
    show ?thesis by simp
  qed (simp_all add: generate_action_unfold [OF gt])
  then obtain new where
    "trace (snd (generate_action E registry r oc mi ct mw cx s))
       = trace s @ (Dispatched (turn_chain E r model mw s) cx # turn @ new)"
    using t1 by auto
  from new_events_append [OF this] show ?thesis
    by (simp add: turn_chain_def)
qed

theorem context_middleware_appended_witness:
  "resolve_parameters (registry_of text_only []) ((request_of None None)\<lparr>opt_docs := Some [''doc'']\<rparr>)
     = Inr (text_only, [], None)
   \<and> hd (new_events caller_state (snd (generate_action E0 (registry_of text_only [])
        ((request_of None None)\<lparr>opt_docs := Some [''doc'']\<rparr>) False 0 0
        (Some 0) None caller_state)))
     = Dispatched [tag_middleware, aug0] None"
proof -
  have rp: "resolve_parameters (registry_of text_only [])
      ((request_of None None)\<lparr>opt_docs := Some [''doc'']\<rparr>) = Inr (text_only, [], None)"
    by (simp add: resolve_parameters_def registry_of_def request_of_def Let_def)
  from context_middleware_appended [OF rp, of caller_state E0 False 0 0 "Some 0" None]
  show ?thesis
    using rp
    by (auto simp: caller_state_def s0_def docs_present_def request_of_def supports_context_def
        text_only_def scripted_model_def E0_def)
qed

text \<open>
  The claim as stated fails: the caller's middleware is first in the chain, and the
  request that reaches the model has the caller's system message before the documents.
\<close>

theorem context_middleware_order_counterexample:
  "dispatches (trace (snd (generate_action E0 (registry_of text_only [])
        ((request_of None None)\<lparr>opt_docs := Some [''doc'']\<rparr>) False 0 0
        (Some 0) None caller_state)))
     = [([tag_middleware, aug0], None)]
   \<and> map req_messages (model_requests (trace (snd (generate_action E0 (registry_of text_only [])
        ((request_of None None)\<lparr>opt_docs := Some [''doc'']\<rparr>) False 0 0
        (Some 0) None caller_state))))
      = [[\<lparr>msg_role = USER, msg_content = [TextPart ''hi'']\<rparr>,
          \<lparr>msg_role = SYSTEM, msg_content = [TextPart ''tag'']\<rparr>,
          \<lparr>msg_role = USER, msg_content = [TextPart ''doc'']\<rparr>]]"
  by (simp add: generate_action.simps dispatch.simps eval_defs)

subsection \<open>A reply without tool requests (C6)\<close>












subsection \<open>The chunk history (C8)\<close>

lemma turn_chunks_not_Nil [simp]: "turn_chunks es \<noteq> []"
  by (induction es rule: turn_chunks.induct) simp_all

lemma turn_chunks_no_dispatch:
  "dispatches rest = [] \<Longrightarrow>
   turn_chunks (rest @ es) = (wrappers rest @ hd (turn_chunks es)) # tl (turn_chunks es)"
proof (induction rest)
  case Nil
  then show ?case by simp
next
  case (Cons e rest)
  then show ?case by (cases e) simp_all
qed

lemma history_ok_append:
  "history_ok pre (ws @ vs) = (history_ok pre ws \<and> history_ok (pre @ map cw_chunk ws) vs)"
  by (induction ws arbitrary: pre) auto

lemma history_ok_model_chunks:
  "history_ok pre (wrappers (model_chunk_events f mi pre cs))"
  "map cw_chunk (wrappers (model_chunk_events f mi pre cs)) = cs"
  by (induction cs arbitrary: pre) simp_all

lemma generate_action_history:
  "generate_action E registry r oc mi ct mw cx s = (res, s')
   \<Longrightarrow> \<exists>new. trace s' = trace s @ new
         \<and> hd (turn_chunks new) = []
         \<and> (\<forall>seg\<in>set (turn_chunks new). history_ok [] seg)"
proof (induction E registry r oc mi ct mw cx s arbitrary: res s' rule: generate_action.induct)
  case (1 E registry r oc mi ct mw cx s)
  obtain out s1 where gt: "generate_turn E registry r oc mi ct mw cx s = (out, s1)"
    by (cases "generate_turn E registry r oc mi ct mw cx s")
  note unf = generate_action_unfold [OF gt]
  show ?case
  proof (cases "\<exists>model tools fd. resolve_parameters registry r = Inr (model, tools, fd)")
    case False
    with generate_turn_failed [OF gt] have "s1 = s" "\<exists>e. out = Raise e" by auto
    with unf "1.prems" have "s' = s" by auto
    then show ?thesis by simp
  next
    case True
    then obtain model tools fd where rp: "resolve_parameters registry r = Inr (model, tools, fd)"
      by blast
    from generate_turn_effect [OF gt rp] obtain f cs mc runs tc where
      t1: "trace s1 = trace s @ Dispatched (turn_chain E r model mw s) cx # mc
                     @ model_chunk_events f mi [] cs @ map ToolRun runs @ tc"
      and mc: "\<forall>e\<in>set mc. is_model_call e"
      and o: "(case out of
          Recurse r' mi' \<Rightarrow>
            opt_model r' = opt_model r \<and> opt_docs r' = opt_docs r
            \<and> max_iters r' = max_iters r \<and> ct + 1 \<le> max_iters r
            \<and> (if oc then \<exists>w. tc = [OnChunk TOOL w]
                           \<and> cw_index w = mi + (if cs = [] then 0 else 1)
                           \<and> cw_previous_chunks w = cs \<and> mi' = cw_index w + 1
                else tc = [] \<and> mi' = mi + 1)
        | _ \<Rightarrow> tc = [])"
      by blast
    let ?rest = "mc @ model_chunk_events f mi [] cs @ map ToolRun runs @ tc"
    from o have tc: "tc = [] \<or> (\<exists>w. tc = [OnChunk TOOL w] \<and> cw_previous_chunks w = cs)"
      by (cases out; cases oc; auto)
    then have nd: "dispatches ?rest = []"
      using mc by (auto simp: dispatches_model_calls)
    have wr: "wrappers ?rest = wrappers (model_chunk_events f mi [] cs) @ wrappers tc"
      using mc by (simp add: wrappers_model_calls)
    have hist: "history_ok [] (wrappers ?rest)"
      unfolding wr
      using tc history_ok_model_chunks [where pre = "[]" and f = f and mi = mi and cs = cs]
      by (auto simp: history_ok_append)
    have seg: "hd (turn_chunks (Dispatched (turn_chain E r model mw s) cx # ?rest @ new')) = []
        \<and> (\<forall>seg\<in>set (turn_chunks (Dispatched (turn_chain E r model mw s) cx # ?rest @ new')).
              history_ok [] seg)"
      if "hd (turn_chunks new') = []" "\<forall>seg\<in>set (turn_chunks new'). history_ok [] seg" for new'
    proof -
      have "set (tl (turn_chunks new')) \<subseteq> set (turn_chunks new')"
        by (cases "turn_chunks new'") auto
      moreover have "turn_chunks (Dispatched (turn_chain E r model mw s) cx # ?rest @ new')
          = [] # wrappers ?rest # tl (turn_chunks new')"
        by (simp only: turn_chunks.simps(2) turn_chunks_no_dispatch [OF nd] that(1) append_Nil2)
      ultimately show ?thesis
        using that hist by auto
    qed
    show ?thesis
    proof (cases out)
      case (Recurse r' mi')
      with unf "1.prems"
      have ga: "generate_action E registry r' oc mi' (ct + 1) None None s1 = (res, s')" by simp
      from "1.IH" [OF gt [symmetric] Recurse ga] obtain new' where
        n: "trace s' = trace s1 @ new'" "hd (turn_chunks new') = []"
        "\<forall>seg\<in>set (turn_chunks new'). history_ok [] seg"
        by blast
      have "trace s' = trace s @ (Dispatched (turn_chain E r model mw s) cx # ?rest @ new')"
        using n(1) t1 by simp
      with seg [OF n(2,3)] show ?thesis by blast
    next
      case (Return response)
      with unf "1.prems" have "s' = s1" by simp
      with t1 have "trace s' = trace s @ (Dispatched (turn_chain E r model mw s) cx # ?rest @ [])"
        by simp
      with seg [of "[]"] show ?thesis by (metis turn_chunks.simps(1) list.sel(1) list.set_intros(1) set_ConsD empty_iff list.set(1) history_ok.simps(1))
    next
      case (Raise e)
      with unf "1.prems" have "s' = s1" by simp
      with t1 have "trace s' = trace s @ (Dispatched (turn_chain E r model mw s) cx # ?rest @ [])"
        by simp
      with seg [of "[]"] show ?thesis by (metis turn_chunks.simps(1) list.sel(1) list.set_intros(1) set_ConsD empty_iff list.set(1) history_ok.simps(1))
    qed
  qed
qed

lemma dispatch_turn_reset:
  "dispatch_turn E r model tools f oc mi mw cx (s\<lparr>chunk_role := x, prev_chunks := y\<rparr>)
   = dispatch_turn E r model tools f oc mi mw cx s"
  by (simp add: dispatch_turn_def)

lemma generate_action_reset:
  "fst (generate_action E registry r oc mi ct mw cx (s\<lparr>chunk_role := x, prev_chunks := y\<rparr>))
     = fst (generate_action E registry r oc mi ct mw cx s)
   \<and> trace (snd (generate_action E registry r oc mi ct mw cx (s\<lparr>chunk_role := x, prev_chunks := y\<rparr>)))
     = trace (snd (generate_action E registry r oc mi ct mw cx s))"
proof (cases "resolve_parameters registry r")
  case (Inl e)
  then have "generate_turn E registry r oc mi ct mw cx t = (Raise e, t)" for t
    by (simp add: generate_turn_def)
  then show ?thesis
    by (simp add: generate_action.simps [of E registry r oc mi ct mw cx])
next
  case (Inr t)
  then obtain model tools fd where rp: "resolve_parameters registry r = Inr (model, tools, fd)"
    by (cases t) auto
  from resolve_parameters_format [OF rp] obtain r1 f where af: "apply_format E r fd = Inr (r1, f)"
    by blast
  from rp af
  have "generate_turn E registry r oc mi ct mw cx (s\<lparr>chunk_role := x, prev_chunks := y\<rparr>)
      = generate_turn E registry r oc mi ct mw cx s"
    by (simp add: generate_turn_def dispatch_turn_reset)
  then show ?thesis
    by (simp add: generate_action.simps [of E registry r oc mi ct mw cx])
qed

text \<open>
  C8, as the code has it. \<^verbatim>\<open>prev_chunks\<close> and \<^verbatim>\<open>chunk_role\<close> are variables of one activation
  of \<^verbatim>\<open>generate_action\<close>, set to \<^verbatim>\<open>[]\<close> and \<^verbatim>\<open>Role.MODEL\<close> at its start; only
  \<^verbatim>\<open>message_index\<close> is passed to the next turn. So every chunk given to the callback
  carries as previous chunks exactly the chunks given earlier in the same turn, and the
  first chunk of every turn carries none; and what a call returns and logs does not
  depend on the history and the role an earlier activation left behind.
\<close>

theorem chunk_history_per_turn:
  "(\<forall>seg\<in>set (turn_chunks (new_events s (snd (generate_action E registry r oc mi ct mw cx s)))).
      history_ok [] seg)
   \<and> fst (generate_action E registry r oc mi ct mw cx (s\<lparr>chunk_role := role, prev_chunks := chunks\<rparr>))
       = fst (generate_action E registry r oc mi ct mw cx s)
   \<and> trace (snd (generate_action E registry r oc mi ct mw cx
         (s\<lparr>chunk_role := role, prev_chunks := chunks\<rparr>)))
       = trace (snd (generate_action E registry r oc mi ct mw cx s))"
proof -
  obtain res s' where ga: "generate_action E registry r oc mi ct mw cx s = (res, s')"
    by (cases "generate_action E registry r oc mi ct mw cx s")
  from generate_action_history [OF ga] obtain new where
    "trace s' = trace s @ new" "\<forall>seg\<in>set (turn_chunks new). history_ok [] seg"
    by blast
  then have "\<forall>seg\<in>set (turn_chunks (new_events s
      (snd (generate_action E registry r oc mi ct mw cx s)))). history_ok [] seg"
    by (simp add: ga)
  with generate_action_reset [where s = s and x = role and y = chunks]
  show ?thesis by blast
qed

theorem chunk_history_per_turn_witness:
  "map (map cw_previous_chunks) (turn_chunks (new_events s0 (snd (generate_action E0
        (registry_of streaming_model [ok_tool])
        (request_of (Some [''t'']) None) True 0 0 None None s0))))
     = [[], [[], [text_chunk ''a''], [text_chunk ''a'', text_chunk ''b'']], [[]]]
   \<and> list_all (history_ok []) (turn_chunks (new_events s0 (snd (generate_action E0
        (registry_of streaming_model [ok_tool])
        (request_of (Some [''t'']) None) True 0 0 None None s0))))"
proof -
  have "map (map cw_previous_chunks) (turn_chunks (new_events s0 (snd (generate_action E0
        (registry_of streaming_model [ok_tool])
        (request_of (Some [''t'']) None) True 0 0 None None s0))))
     = [[], [[], [text_chunk ''a''], [text_chunk ''a'', text_chunk ''b'']], [[]]]"
    by (simp add: generate_action.simps dispatch.simps eval_defs)
  with chunk_history_per_turn [of s0 E0 "registry_of streaming_model [ok_tool]"
      "request_of (Some [''t'']) None" True 0 0 None None]
  show ?thesis by (simp add: list_all_iff)
qed

text \<open>
  The claim as stated fails: the fourth chunk, the first of the second turn, has an empty
  list of previous chunks, though three chunks were given to the callback before it.
\<close>

theorem later_turn_history_counterexample:
  "chunk_log (trace (snd (generate_action E0 (registry_of streaming_model [ok_tool])
        (request_of (Some [''t'']) None) True 0 0 None None s0)))
     = [(MODEL, 0), (MODEL, 0), (TOOL, 1), (MODEL, 2)]
   \<and> chunk_snapshots (trace (snd (generate_action E0 (registry_of streaming_model [ok_tool])
        (request_of (Some [''t'']) None) True 0 0 None None s0)))
     = [[], [text_chunk ''a''], [text_chunk ''a'', text_chunk ''b''], []]"
  by (simp add: generate_action.simps dispatch.simps eval_defs)

subsection \<open>Middleware and context after the first turn (C9)\<close>

lemma resolve_parameters_model:
  assumes "resolve_parameters registry r = Inr (model, tools, fd)"
  shows "\<exists>n. (case opt_model r of Some m \<Rightarrow> Some m | None \<Rightarrow> default_model registry) = Some n
     \<and> lookup_action registry KModel n = Some model"
proof -
  let ?m = "case opt_model r of Some m \<Rightarrow> Some m | None \<Rightarrow> default_model registry"
  from assms obtain n where n: "?m = Some n"
    by (cases ?m) (simp_all add: resolve_parameters_def)
  from assms n have ne: "n \<noteq> []"
    by (auto simp: resolve_parameters_def split: if_splits)
  from assms n ne obtain ma where ma: "lookup_action registry KModel n = Some ma"
    by (cases "lookup_action registry KModel n") (simp_all add: resolve_parameters_def)
  from assms n ne ma have "ma = model"
    by (auto simp: resolve_parameters_def split: sum.splits option.splits if_splits)
  with n ma show ?thesis by simp
qed

lemma resolve_parameters_same_model:
  assumes "resolve_parameters registry r = Inr (model, tools, fd)"
    and "resolve_parameters registry r' = Inr (model', tools', fd')"
    and "opt_model r' = opt_model r"
  shows "model' = model"
  using resolve_parameters_model [OF assms(1)] resolve_parameters_model [OF assms(2)] assms(3)
  by auto

lemma generate_action_dispatches:
  "generate_action E registry r oc mi ct mw cx s = (res, s')
   \<Longrightarrow> \<exists>new. trace s' = trace s @ new
     \<and> (\<forall>model tools fd. resolve_parameters registry r = Inr (model, tools, fd)
          \<longrightarrow> (\<exists>k. dispatches new = (turn_chain E r model mw s, cx)
                        # replicate k (context_middleware E r model, None)))
     \<and> ((\<forall>model tools fd. resolve_parameters registry r \<noteq> Inr (model, tools, fd)) \<longrightarrow> new = [])"
proof (induction E registry r oc mi ct mw cx s arbitrary: res s' rule: generate_action.induct)
  case (1 E registry r oc mi ct mw cx s)
  obtain out s1 where gt: "generate_turn E registry r oc mi ct mw cx s = (out, s1)"
    by (cases "generate_turn E registry r oc mi ct mw cx s")
  note unf = generate_action_unfold [OF gt]
  show ?case
  proof (cases "\<exists>model tools fd. resolve_parameters registry r = Inr (model, tools, fd)")
    case False
    with generate_turn_failed [OF gt] have "s1 = s" "\<exists>e. out = Raise e" by auto
    with unf "1.prems" have "s' = s" by auto
    with False show ?thesis by simp
  next
    case True
    then obtain model tools fd where rp: "resolve_parameters registry r = Inr (model, tools, fd)"
      by blast
    from generate_turn_effect [OF gt rp] obtain f cs mc runs tc where
      t1: "trace s1 = trace s @ Dispatched (turn_chain E r model mw s) cx # mc
                     @ model_chunk_events f mi [] cs @ map ToolRun runs @ tc"
      and mc: "\<forall>e\<in>set mc. is_model_call e"
      and o: "(case out of
          Recurse r' mi' \<Rightarrow>
            opt_model r' = opt_model r \<and> opt_docs r' = opt_docs r
            \<and> max_iters r' = max_iters r \<and> ct + 1 \<le> max_iters r
            \<and> (if oc then \<exists>w. tc = [OnChunk TOOL w]
                           \<and> cw_index w = mi + (if cs = [] then 0 else 1)
                           \<and> cw_previous_chunks w = cs \<and> mi' = cw_index w + 1
                else tc = [] \<and> mi' = mi + 1)
        | _ \<Rightarrow> tc = [])"
      by blast
    let ?turn = "Dispatched (turn_chain E r model mw s) cx # mc
                     @ model_chunk_events f mi [] cs @ map ToolRun runs @ tc"
    from o have "dispatches tc = []"
      by (cases out; cases oc; auto)
    with mc have dt: "dispatches ?turn = [(turn_chain E r model mw s, cx)]"
      by (simp add: dispatches_model_calls)
    have goal: "\<exists>new. trace s' = trace s @ new
       \<and> (\<exists>k. dispatches new = (turn_chain E r model mw s, cx)
                        # replicate k (context_middleware E r model, None))"
    proof (cases out)
      case (Recurse r' mi')
      with unf "1.prems"
      have ga: "generate_action E registry r' oc mi' (ct + 1) None None s1 = (res, s')" by simp
      from "1.IH" [OF gt [symmetric] Recurse ga] obtain new' where
        n: "trace s' = trace s1 @ new'"
        and ok: "\<forall>model tools fd. resolve_parameters registry r' = Inr (model, tools, fd)
          \<longrightarrow> (\<exists>k. dispatches new' = (turn_chain E r' model None s1, None)
                        # replicate k (context_middleware E r' model, None))"
        and no: "(\<forall>model tools fd. resolve_parameters registry r' \<noteq> Inr (model, tools, fd))
          \<longrightarrow> new' = []"
        by blast
      from o Recurse have same: "opt_model r' = opt_model r" "opt_docs r' = opt_docs r"
        by simp_all
      have tr: "trace s' = trace s @ (?turn @ new')" using n t1 by simp
      have "\<exists>k. dispatches new' = replicate k (context_middleware E r model, None)"
      proof (cases "\<exists>model tools fd. resolve_parameters registry r' = Inr (model, tools, fd)")
        case False
        with no have "new' = []" by simp
        then show ?thesis by (intro exI [of _ 0]) simp
      next
        case True
        then obtain model' tools' fd' where
          rp': "resolve_parameters registry r' = Inr (model', tools', fd')" by blast
        from resolve_parameters_same_model [OF rp rp' same(1)] have m: "model' = model" .
        from ok rp' m obtain k where
          "dispatches new' = (turn_chain E r' model None s1, None)
                        # replicate k (context_middleware E r' model, None)"
          by blast
        moreover have "turn_chain E r' model None s1 = context_middleware E r model"
          "context_middleware E r' model = context_middleware E r model"
          using same by (simp_all add: turn_chain_def context_middleware_def docs_present_def)
        ultimately show ?thesis
          by (intro exI [of _ "Suc k"]) simp
      qed
      then obtain k where "dispatches new' = replicate k (context_middleware E r model, None)" ..
      with dt have "dispatches (?turn @ new') = (turn_chain E r model mw s, cx)
                        # replicate k (context_middleware E r model, None)"
        unfolding dispatches_simps(2) by simp
      with tr show ?thesis by blast
    next
      case (Return response)
      with unf "1.prems" have "s' = s1" by simp
      with t1 dt show ?thesis
        by (intro exI [of _ ?turn]) (simp only: replicate_0 exI [of _ 0] simp_thms)
    next
      case (Raise e)
      with unf "1.prems" have "s' = s1" by simp
      with t1 dt show ?thesis
        by (intro exI [of _ ?turn]) (simp only: replicate_0 exI [of _ 0] simp_thms)
    qed
    then obtain new k where
      "trace s' = trace s @ new" "dispatches new = (turn_chain E r model mw s, cx)
                        # replicate k (context_middleware E r model, None)"
      by blast
    with rp show ?thesis
      by (intro exI [of _ new]) auto
  qed
qed

text \<open>
  C9, as the code has it. When the model resolves, the first dispatch of the exchange has
  the caller's middleware, followed by the context middleware if the activation adds it,
  and the caller's context; every later dispatch has none of the caller's middleware and
  the context \<^verbatim>\<open>None\<close>. Its chain is empty, except that it holds the context middleware
  when the request has documents and the model does not support context.
\<close>

theorem continuation_dispatches:
  assumes "resolve_parameters registry r = Inr (model, tools, fd)"
  shows "\<exists>k. dispatches (new_events s (snd (generate_action E registry r oc mi ct mw cx s)))
     = ((case mw of None \<Rightarrow> [] | Some a \<Rightarrow> heap s a) @ context_middleware E r model, cx)
       # replicate k (context_middleware E r model, None)"
proof -
  obtain res s' where ga: "generate_action E registry r oc mi ct mw cx s = (res, s')"
    by (cases "generate_action E registry r oc mi ct mw cx s")
  from generate_action_dispatches [OF ga] assms obtain new k where
    "trace s' = trace s @ new"
    "dispatches new = (turn_chain E r model mw s, cx) # replicate k (context_middleware E r model, None)"
    by blast
  then show ?thesis
    by (intro exI [of _ k]) (simp add: ga turn_chain_def context_middleware_def)
qed

lemma docs_run_resolved:
  "resolve_parameters (registry_of tool_then_text [ok_tool]) docs_request
     = Inr (tool_then_text, [ok_tool], None)"
  by (simp add: resolve_parameters_def registry_of_def docs_request_def request_of_def
      ok_tool_def tool_action_def Let_def)

lemma docs_run_dispatches:
  "dispatches (new_events caller_state (snd (generate_action E0
        (registry_of tool_then_text [ok_tool]) docs_request False 0 0
        (Some 0) (Some [(''user'', ''u'')]) caller_state)))
     = [([tag_middleware, aug0], Some [(''user'', ''u'')]), ([aug0], None)]"
  by (simp add: generate_action.simps dispatch.simps eval_defs)

theorem continuation_dispatches_witness:
  "resolve_parameters (registry_of tool_then_text [ok_tool]) docs_request
     = Inr (tool_then_text, [ok_tool], None)
   \<and> dispatches (new_events caller_state (snd (generate_action E0
        (registry_of tool_then_text [ok_tool]) docs_request False 0 0
        (Some 0) (Some [(''user'', ''u'')]) caller_state)))
     = ((case Some 0 of None \<Rightarrow> [] | Some a \<Rightarrow> heap caller_state a)
          @ context_middleware E0 docs_request tool_then_text, Some [(''user'', ''u'')])
       # replicate 1 (context_middleware E0 docs_request tool_then_text, None)"
proof -
  from continuation_dispatches [OF docs_run_resolved, of caller_state E0 False 0 0 "Some 0"
      "Some [(''user'', ''u'')]"]
  obtain k where k: "dispatches (new_events caller_state (snd (generate_action E0
        (registry_of tool_then_text [ok_tool]) docs_request False 0 0
        (Some 0) (Some [(''user'', ''u'')]) caller_state)))
     = ((case Some 0 of None \<Rightarrow> [] | Some a \<Rightarrow> heap caller_state a)
          @ context_middleware E0 docs_request tool_then_text, Some [(''user'', ''u'')])
       # replicate k (context_middleware E0 docs_request tool_then_text, None)"
    by blast
  then have "length (dispatches (new_events caller_state (snd (generate_action E0
        (registry_of tool_then_text [ok_tool]) docs_request False 0 0
        (Some 0) (Some [(''user'', ''u'')]) caller_state)))) = Suc k"
    by simp
  then have "k = 1" by (simp add: docs_run_dispatches)
  with k docs_run_resolved show ?thesis by simp
qed

text \<open>
  The claim as stated fails: for a request with a document the chain of the second
  dispatch is not empty, it has one middleware, and the second request that reaches the
  model ends with the documents that middleware added.
\<close>

theorem continuation_chain_counterexample:
  "map (\<lambda>d. length (fst d)) (dispatches (trace (snd (generate_action E0
        (registry_of tool_then_text [ok_tool]) docs_request False 0 0
        (Some 0) (Some [(''user'', ''u'')]) caller_state)))) = [2, 1]
   \<and> map snd (dispatches (trace (snd (generate_action E0
        (registry_of tool_then_text [ok_tool]) docs_request False 0 0
        (Some 0) (Some [(''user'', ''u'')]) caller_state)))) = [Some [(''user'', ''u'')], None]
   \<and> map req_messages (model_requests (trace (snd (generate_action E0
        (registry_of tool_then_text [ok_tool]) docs_request False 0 0
        (Some 0) (Some [(''user'', ''u'')]) caller_state))))
      = [[\<lparr>msg_role = USER, msg_content = [TextPart ''hi'']\<rparr>,
          \<lparr>msg_role = SYSTEM, msg_content = [TextPart ''tag'']\<rparr>,
          \<lparr>msg_role = USER, msg_content = [TextPart ''doc'']\<rparr>],
         [\<lparr>msg_role = USER, msg_content = [TextPart ''hi'']\<rparr>,
          \<lparr>msg_role = MODEL, msg_content = [call_tool ''t'']\<rparr>,
          \<lparr>msg_role = TOOL, msg_content =
             [ToolResponsePart \<lparr>tp_name = ''t'', tp_ref = None, tp_output = ''ok''\<rparr>]\<rparr>,
          \<lparr>msg_role = USER, msg_content = [TextPart ''doc'']\<rparr>]]"
  by (simp add: generate_action.simps dispatch.simps eval_defs)

subsection \<open>The caller's middleware list (C10)\<close>

lemma generate_action_heap:
  "generate_action E registry r oc mi ct mw cx s = (res, s')
   \<Longrightarrow> next_addr s \<le> next_addr s'
     \<and> (\<forall>b<next_addr s. heap s' b =
          (case resolve_parameters registry r of
             Inr (model, tools, fd) \<Rightarrow> heap_after E r model mw s b
           | Inl e \<Rightarrow> heap s b))"
proof (induction E registry r oc mi ct mw cx s arbitrary: res s' rule: generate_action.induct)
  case (1 E registry r oc mi ct mw cx s)
  obtain out s1 where gt: "generate_turn E registry r oc mi ct mw cx s = (out, s1)"
    by (cases "generate_turn E registry r oc mi ct mw cx s")
  note unf = generate_action_unfold [OF gt]
  show ?case
  proof (cases "resolve_parameters registry r")
    case (Inl e)
    then have "\<forall>model tools fd. resolve_parameters registry r \<noteq> Inr (model, tools, fd)" by simp
    with generate_turn_failed [OF gt] have "s1 = s" "\<exists>e. out = Raise e" by auto
    with unf "1.prems" have "s' = s" by auto
    with Inl show ?thesis by simp
  next
    case (Inr t)
    then obtain model tools fd where rp: "resolve_parameters registry r = Inr (model, tools, fd)"
      by (cases t) auto
    from generate_turn_effect [OF gt rp]
    have h1: "\<forall>b<next_addr s. heap s1 b = heap_after E r model mw s b"
      and n1: "next_addr s \<le> next_addr s1"
      by blast+
    show ?thesis
    proof (cases out)
      case (Recurse r' mi')
      with unf "1.prems"
      have ga: "generate_action E registry r' oc mi' (ct + 1) None None s1 = (res, s')" by simp
      from "1.IH" [OF gt [symmetric] Recurse ga]
      have n': "next_addr s1 \<le> next_addr s'"
        and h': "\<forall>b<next_addr s1. heap s' b =
          (case resolve_parameters registry r' of
             Inr (model, tools, fd) \<Rightarrow> heap_after E r' model None s1 b
           | Inl e \<Rightarrow> heap s1 b)"
        by blast+
      have "heap s' b = heap s1 b" if "b < next_addr s1" for b
        using h' that by (auto simp: heap_after_def split: sum.splits)
      with h1 n1 n' rp show ?thesis by auto
    next
      case (Return response)
      with unf "1.prems" have "s' = s1" by simp
      with h1 n1 rp show ?thesis by simp
    next
      case (Raise e)
      with unf "1.prems" have "s' = s1" by simp
      with h1 n1 rp show ?thesis by simp
    qed
  qed
qed

text \<open>
  C10. After \<^verbatim>\<open>generate_action\<close>, a list object \<open>b\<close> that existed before the call holds what
  it held, with the context middleware appended if and only if \<open>b\<close> is the list the caller
  passed as \<^verbatim>\<open>middleware\<close>, it was not empty, the request has documents, and the model
  resolves and does not support context. In all other cases it is unchanged.
\<close>

theorem caller_middleware_list:
  assumes "b < next_addr s"
  shows "heap (snd (generate_action E registry r oc mi ct mw cx s)) b =
     (case resolve_parameters registry r of
        Inr (model, tools, fd) \<Rightarrow>
          if mw = Some b \<and> heap s b \<noteq> [] \<and> docs_present r \<and> \<not> supports_context model
          then heap s b @ [augment_with_context E] else heap s b
      | Inl e \<Rightarrow> heap s b)"
proof -
  obtain res s' where ga: "generate_action E registry r oc mi ct mw cx s = (res, s')"
    by (cases "generate_action E registry r oc mi ct mw cx s")
  from generate_action_heap [OF ga] assms show ?thesis
    by (simp add: ga heap_after_def split: sum.split)
qed

theorem caller_middleware_list_witness:
  "(0::nat) < next_addr caller_state
   \<and> heap caller_state 0 = [tag_middleware]
   \<and> heap (snd (generate_action E0 (registry_of tool_then_text [ok_tool]) docs_request False 0 0
        (Some 0) (Some [(''user'', ''u'')]) caller_state)) 0 = [tag_middleware, aug0]"
proof -
  have a: "(0::nat) < next_addr caller_state" by (simp add: caller_state_def s0_def)
  from caller_middleware_list [OF a, of E0 "registry_of tool_then_text [ok_tool]" docs_request
      False 0 0 "Some 0" "Some [(''user'', ''u'')]"]
  show ?thesis
    by (simp add: docs_run_resolved a)
       (simp add: caller_state_def s0_def docs_present_def docs_request_def request_of_def
          supports_context_def tool_then_text_def scripted_model_def E0_def)
qed

end
